theory Spec2Isabelle
  imports Complex_Main "HOL-Library.AList" "HOL-Library.Char_ord" "HOL-Library.List_Lexorder"
    "HOL-Library.Multiset"
begin

section \<open>Data model (snapshot/types.ts)\<close>

text \<open>
  JavaScript strings are modelled as \<^typ>\<open>string\<close>, the integer-valued numbers of the
  data model (line counts, character counts, epoch milliseconds) as \<^typ>\<open>int\<close>.
  Field names are the source's; \<open>id\<close> is written \<open>snapshot_id\<close> because \<open>id\<close> is the
  identity function of HOL, and the fields of \<open>Flag\<close> carry the prefix \<open>flag_\<close> where a
  field of \<open>Snapshot\<close> has the same name.
\<close>

datatype ChangeType = Typing | Paste | Delete | Refactor

datatype FlagSeverity = High | Medium | Low | Info

datatype FlagCategory =
    large_paste
  | rapid_completion
  | fully_formed_code
  | long_gap
  | style_inconsistency
  | no_debugging
  | unusual_typing_speed

record Snapshot =
  snapshot_id :: string
  timestamp :: string
  filename :: string
  content_hash :: string
  diff :: string
  lines_added :: int
  lines_removed :: int
  total_lines :: int
  change_type :: ChangeType
  change_size :: int
  chain_hash :: string
  session_id :: string

text \<open>
  A \<open>Flag\<close> of the source also has an \<open>id\<close> (a random UUID), a \<open>description\<close> and a
  \<open>suggestedContext\<close>. They are display text that no branch of the analyzer reads, and
  they are left out of the record.
\<close>

record Flag =
  flag_category :: FlagCategory
  flag_severity :: FlagSeverity
  flag_timestamp :: string
  flag_filename :: string
  snapshotIds :: "string list"

section \<open>Change classifier (snapshot/detector.ts)\<close>

text \<open>One entry of \<open>event.contentChanges\<close>: the replaced range, the inserted text and
  the length of the text it replaced.\<close>

record Position =
  line :: int
  character :: int

record ContentChange =
  range_start :: Position
  range_end :: Position
  change_text :: string
  rangeLength :: int

definition DEFAULT_PASTE_CHAR_THRESHOLD :: int where
  "DEFAULT_PASTE_CHAR_THRESHOLD = 50"

definition DELETE_CHAR_THRESHOLD :: int where
  "DELETE_CHAR_THRESHOLD = 30"

text \<open>\<open>ChangeDetector.detect\<close>; the first argument is the detector's \<open>pasteThreshold\<close>
  field, the second \<open>event.contentChanges\<close>.\<close>

fun detect :: "int \<Rightarrow> ContentChange list \<Rightarrow> ChangeType" where
  "detect pasteThreshold [] = Typing"
| "detect pasteThreshold (change # others) =
     (if length (change # others) > 1 then Refactor
      else
        let charsAdded = int (length (change_text change));
            charsRemoved = rangeLength change
        in if charsAdded \<ge> pasteThreshold then Paste
           else if charsRemoved \<ge> DELETE_CHAR_THRESHOLD \<and> charsAdded = 0 then Delete
           else Typing)"

section \<open>Chain store (snapshot/storage.ts)\<close>

text \<open>
  What a call of the source can throw. \<open>SqliteError\<close> is thrown by a statement of
  better-sqlite3 (the text says why), \<open>CollaboratorError\<close> by a primitive outside the
  repository (the diff library).
\<close>

datatype error = SqliteError string | CollaboratorError string

record Session =
  sess_id :: string
  started_at :: string
  ended_at :: string
  project_name :: string
  files_touched :: "string list"
  total_snapshots :: int

text \<open>
  The database: the rows of the table \<open>snapshots\<close> in insertion order, the rows of the
  table \<open>sessions\<close>, and whether the database file accepts a write (a full disk or a
  lock makes every writing statement throw). The column \<open>id\<close> of \<open>snapshots\<close> is the
  primary key: inserting a second row with the same id throws.
\<close>

record SnapshotStorage =
  snapshots_tbl :: "Snapshot list"
  sessions_tbl :: "Session list"
  db_writable :: bool

definition saveSnapshot :: "SnapshotStorage \<Rightarrow> Snapshot \<Rightarrow> error + SnapshotStorage" where
  "saveSnapshot db snapshot =
     (if \<not> db_writable db then Inl (SqliteError ''SQLITE_IOERR'')
      else if snapshot_id snapshot \<in> set (map snapshot_id (snapshots_tbl db))
      then Inl (SqliteError ''SQLITE_CONSTRAINT_PRIMARYKEY'')
      else Inr (db\<lparr>snapshots_tbl := snapshots_tbl db @ [snapshot]\<rparr>))"

text \<open>
  \<open>SELECT ... FROM snapshots ORDER BY timestamp ASC\<close>. The column is TEXT with the
  binary collation, that is the lexicographic order of the characters' codes, which is
  the order of \<^typ>\<open>string\<close> here. Rows with equal timestamps keep their insertion
  order (the index on \<open>timestamp\<close> orders them by rowid).
\<close>

definition select_order_by_timestamp :: "SnapshotStorage \<Rightarrow> Snapshot list" where
  "select_order_by_timestamp db = sort_key timestamp (snapshots_tbl db)"

text \<open>The loop of \<open>verifyHashChain\<close>; \<open>sha256\<close> is
  \<open>crypto.createHash('sha256').update(s).digest('hex')\<close>, a parameter.\<close>

fun verify_loop :: "(string \<Rightarrow> string) \<Rightarrow> string \<Rightarrow> Snapshot list \<Rightarrow> bool" where
  "verify_loop sha256 previousChainHash [] = True"
| "verify_loop sha256 previousChainHash (snapshot # rest) =
     (let expectedHash =
            sha256 (previousChainHash @ content_hash snapshot @ timestamp snapshot)
      in if expectedHash \<noteq> chain_hash snapshot then False
         else verify_loop sha256 (chain_hash snapshot) rest)"

definition verifyHashChain :: "(string \<Rightarrow> string) \<Rightarrow> SnapshotStorage \<Rightarrow> bool" where
  "verifyHashChain sha256 db = verify_loop sha256 [] (select_order_by_timestamp db)"

text \<open>\<open>endSession\<close>: two UPDATE statements on the session's row; \<open>now\<close> is
  \<open>new Date().toISOString()\<close>. \<open>SELECT DISTINCT filename\<close> gives each file once, in the
  order of its first snapshot.\<close>

definition endSession :: "SnapshotStorage \<Rightarrow> string \<Rightarrow> string \<Rightarrow> error + SnapshotStorage" where
  "endSession db sessionId now =
     (if \<not> db_writable db then Inl (SqliteError ''SQLITE_IOERR'')
      else
        let mine = filter (\<lambda>row. session_id row = sessionId) (snapshots_tbl db);
            filesTouched = rev (remdups (rev (map filename mine)))
        in Inr (db\<lparr>sessions_tbl :=
                  map (\<lambda>s. if sess_id s = sessionId
                            then s\<lparr>ended_at := now, files_touched := filesTouched,
                                   total_snapshots := int (length mine)\<rparr>
                            else s)
                      (sessions_tbl db)\<rparr>))"

section \<open>Aggregator and snapshot builder (snapshot/engine.ts)\<close>

text \<open>
  What the engine reads of a VS Code document: the scheme and file system path of its
  URI, the result of \<open>vscode.workspace.asRelativePath(uri, false)\<close>, its text and its
  line count.
\<close>

record TextDocument =
  uri_scheme :: string
  uri_fsPath :: string
  asRelativePath :: string
  getText :: string
  lineCount :: int

record TextDocumentChangeEvent =
  document :: TextDocument
  contentChanges :: "ContentChange list"

text \<open>
  The collaborators of the core, as parameters: the open documents, the digest, the
  diff primitive (which may throw), the glob matcher, and the two sources of fresh
  values, the clock and the UUID generator, read by the number of values drawn so far.
\<close>

record Host =
  textDocuments :: "TextDocument list"
  sha256_hex :: "string \<Rightarrow> string"
  createPatch :: "string \<Rightarrow> string \<Rightarrow> string \<Rightarrow> error + string"
  minimatch :: "string \<Rightarrow> string \<Rightarrow> bool"
  toISOString_now :: "nat \<Rightarrow> string"
  randomUUID :: "nat \<Rightarrow> string"

fun CHANGE_TYPE_PRIORITY :: "ChangeType \<Rightarrow> int" where
  "CHANGE_TYPE_PRIORITY Typing = 0"
| "CHANGE_TYPE_PRIORITY Delete = 1"
| "CHANGE_TYPE_PRIORITY Refactor = 2"
| "CHANGE_TYPE_PRIORITY Paste = 3"

record PendingChange =
  changeType :: ChangeType
  charsAdded :: int
  charsRemoved :: int

text \<open>
  The engine's fields. The two \<open>Map\<close>s are association lists in insertion order, which
  is the order a JavaScript \<open>Map\<close> iterates in (\<open>AList.update\<close> replaces the value of a
  key in place and appends a new key). \<open>pasteThreshold\<close> is the field of the engine's
  \<open>ChangeDetector\<close>. \<open>fired\<close> is the sequence of snapshots handed to
  \<open>snapshotEmitter.fire\<close>, \<open>console_errors\<close> what was written with \<open>console.error\<close>,
  \<open>drawn\<close> the number of (timestamp, UUID) pairs taken from the host so far.
\<close>

record SnapshotEngine =
  fileContents :: "(string \<times> string) list"
  pendingChanges :: "(string \<times> PendingChange) list"
  isRunning :: bool
  isPaused :: bool
  sessionId :: string
  snapshotCount :: int
  lastChainHash :: string
  excludePatterns :: "string list"
  pasteThreshold :: int
  storage :: "SnapshotStorage option"
  intervalHandle :: bool
  listening :: bool
  fired :: "Snapshot list"
  console_errors :: "error list"
  drawn :: nat

fun isExcluded :: "Host \<Rightarrow> string list \<Rightarrow> string \<Rightarrow> bool" where
  "isExcluded host [] relativePath = False"
| "isExcluded host (pattern # patterns) relativePath =
     (if minimatch host relativePath pattern then True
      else isExcluded host patterns relativePath)"

definition handleDocumentChange ::
  "Host \<Rightarrow> TextDocumentChangeEvent \<Rightarrow> SnapshotEngine \<Rightarrow> SnapshotEngine" where
  "handleDocumentChange host event st =
     (if length (contentChanges event) = 0 then st
      else if uri_scheme (document event) \<noteq> ''file'' then st
      else
        let filePath = uri_fsPath (document event);
            relativePath = asRelativePath (document event)
        in if isExcluded host (excludePatterns st) relativePath then st
           else
             let detected = detect (pasteThreshold st) (contentChanges event);
                 added = sum_list (map (\<lambda>change. int (length (change_text change)))
                                       (contentChanges event));
                 removed = sum_list (map rangeLength (contentChanges event));
                 seeded = (if map_of (fileContents st) filePath = None
                           then AList.update filePath [] (fileContents st)
                           else fileContents st)
             in (case map_of (pendingChanges st) filePath of
                   Some existing \<Rightarrow>
                     st\<lparr>fileContents := seeded,
                        pendingChanges :=
                          AList.update filePath
                            \<lparr>changeType =
                               (if CHANGE_TYPE_PRIORITY detected
                                     > CHANGE_TYPE_PRIORITY (changeType existing)
                                then detected else changeType existing),
                             charsAdded = charsAdded existing + added,
                             charsRemoved = charsRemoved existing + removed\<rparr>
                            (pendingChanges st)\<rparr>
                 | None \<Rightarrow>
                     st\<lparr>fileContents := seeded,
                        pendingChanges :=
                          AList.update filePath
                            \<lparr>changeType = detected, charsAdded = added,
                             charsRemoved = removed\<rparr>
                            (pendingChanges st)\<rparr>))"

text \<open>\<open>s.split('\n')\<close>: the pieces between the line feeds; the empty string gives one
  empty piece.\<close>

fun split_lines :: "string \<Rightarrow> string list" where
  "split_lines [] = [[]]"
| "split_lines (c # cs) =
     (if c = CHR 0x0A then [] # split_lines cs
      else (case split_lines cs of
              [] \<Rightarrow> [[c]]
            | l # ls \<Rightarrow> (c # l) # ls))"

definition startsWith :: "string \<Rightarrow> string \<Rightarrow> bool" where
  "startsWith s p = (take (length p) s = p)"

text \<open>The loop of \<open>countDiffLines\<close> over the lines of a diff, with the two counters.\<close>

fun countDiffLines_loop :: "string list \<Rightarrow> int \<times> int \<Rightarrow> int \<times> int" where
  "countDiffLines_loop [] (linesAdded, linesRemoved) = (linesAdded, linesRemoved)"
| "countDiffLines_loop (l # ls) (linesAdded, linesRemoved) =
     (if startsWith l ''+'' \<and> \<not> startsWith l ''+++''
      then countDiffLines_loop ls (linesAdded + 1, linesRemoved)
      else if startsWith l ''-'' \<and> \<not> startsWith l ''---''
      then countDiffLines_loop ls (linesAdded, linesRemoved + 1)
      else countDiffLines_loop ls (linesAdded, linesRemoved))"

definition countDiffLines :: "string \<Rightarrow> int \<times> int" where
  "countDiffLines d = countDiffLines_loop (split_lines d) (0, 0)"

text \<open>
  \<open>emitSnapshot\<close>. \<open>Inl e\<close> is an exception that leaves the function: only the diff
  primitive can raise one here, before any field is written, so the caller keeps the
  state it had. An exception of \<open>saveSnapshot\<close> is caught inside the function, which
  writes it to the console and goes on.
\<close>

definition emitSnapshot ::
  "Host \<Rightarrow> string \<Rightarrow> PendingChange \<Rightarrow> SnapshotEngine \<Rightarrow> error + SnapshotEngine" where
  "emitSnapshot host filePath pending st =
     (case find (\<lambda>doc. uri_fsPath doc = filePath) (textDocuments host) of
        None \<Rightarrow> Inr st
      | Some doc \<Rightarrow>
          let currentContent = getText doc;
              previousContent = (case map_of (fileContents st) filePath of
                                   Some c \<Rightarrow> c | None \<Rightarrow> [])
          in if currentContent = previousContent then Inr st
             else
               let relativePath = asRelativePath doc
               in (case createPatch host relativePath previousContent currentContent of
                     Inl e \<Rightarrow> Inl e
                   | Inr unifiedDiff \<Rightarrow>
                       let (linesAdded, linesRemoved) = countDiffLines unifiedDiff;
                           contentHash = sha256_hex host currentContent;
                           stamp = toISOString_now host (drawn st);
                           chainHash =
                             sha256_hex host (lastChainHash st @ contentHash @ stamp);
                           snapshot =
                             \<lparr>snapshot_id = randomUUID host (drawn st),
                              timestamp = stamp,
                              filename = relativePath,
                              content_hash = contentHash,
                              diff = unifiedDiff,
                              lines_added = linesAdded,
                              lines_removed = linesRemoved,
                              total_lines = lineCount doc,
                              change_type = changeType pending,
                              change_size = charsAdded pending + charsRemoved pending,
                              chain_hash = chainHash,
                              session_id = sessionId st\<rparr>;
                           st1 = st\<lparr>lastChainHash := chainHash,
                                    fileContents :=
                                      AList.update filePath currentContent (fileContents st),
                                    snapshotCount := snapshotCount st + 1,
                                    drawn := drawn st + 1\<rparr>;
                           st2 = (case storage st1 of
                                    None \<Rightarrow> st1
                                  | Some db \<Rightarrow>
                                      (case saveSnapshot db snapshot of
                                         Inl e \<Rightarrow>
                                           st1\<lparr>console_errors := console_errors st1 @ [e]\<rparr>
                                       | Inr db' \<Rightarrow> st1\<lparr>storage := Some db'\<rparr>))
                       in Inr (st2\<lparr>fired := fired st2 @ [snapshot]\<rparr>)))"

text \<open>The \<open>for\<close> loop of \<open>processSnapshots\<close> over the entries of \<open>pendingChanges\<close>, with
  its \<open>try\<close>/\<open>catch\<close> around each call.\<close>

fun processSnapshots_loop ::
  "Host \<Rightarrow> (string \<times> PendingChange) list \<Rightarrow> SnapshotEngine \<Rightarrow> SnapshotEngine" where
  "processSnapshots_loop host [] st = st"
| "processSnapshots_loop host ((filePath, pending) # entries) st =
     (case emitSnapshot host filePath pending st of
        Inl e \<Rightarrow>
          processSnapshots_loop host entries (st\<lparr>console_errors := console_errors st @ [e]\<rparr>)
      | Inr st' \<Rightarrow> processSnapshots_loop host entries st')"

definition processSnapshots :: "Host \<Rightarrow> SnapshotEngine \<Rightarrow> SnapshotEngine" where
  "processSnapshots host st =
     (if isPaused st \<or> length (pendingChanges st) = 0 then st
      else (processSnapshots_loop host (pendingChanges st) st)\<lparr>pendingChanges := []\<rparr>)"

text \<open>\<open>stop\<close>; the timestamp \<open>endSession\<close> writes is the next reading of the clock.\<close>

definition stop :: "Host \<Rightarrow> SnapshotEngine \<Rightarrow> SnapshotEngine" where
  "stop host st =
     (if \<not> isRunning st then st
      else
        let st1 = processSnapshots host st;
            st2 = (case storage st1 of
                     None \<Rightarrow> st1
                   | Some db \<Rightarrow>
                       (case endSession db (sessionId st1)
                               (toISOString_now host (drawn st1)) of
                          Inl e \<Rightarrow> st1\<lparr>console_errors := console_errors st1 @ [e],
                                       drawn := drawn st1 + 1\<rparr>
                        | Inr db' \<Rightarrow> st1\<lparr>storage := Some db', drawn := drawn st1 + 1\<rparr>))
        in st2\<lparr>isRunning := False, isPaused := False, intervalHandle := False,
               listening := False, fileContents := [], pendingChanges := []\<rparr>)"

definition pause :: "SnapshotEngine \<Rightarrow> SnapshotEngine" where
  "pause st = (if \<not> isRunning st \<or> isPaused st then st else st\<lparr>isPaused := True\<rparr>)"

definition resume :: "SnapshotEngine \<Rightarrow> SnapshotEngine" where
  "resume st = (if \<not> isRunning st \<or> \<not> isPaused st then st else st\<lparr>isPaused := False\<rparr>)"

section \<open>Replay recorder (snapshot/replay-recorder.ts)\<close>

text \<open>\<open>ReplayChange\<close> and \<open>ReplayEvent\<close>, with the fields the recorder writes; \<open>text\<close> and
  \<open>rangeLength\<close> carry the prefix \<open>rc_\<close>, \<open>timestamp\<close> and \<open>filename\<close> the prefix \<open>ev_\<close>.\<close>

record ReplayChange =
  rangeStart :: Position
  rangeEnd :: Position
  rc_text :: string
  rc_rangeLength :: int

record ReplayEvent =
  ev_timestamp :: int
  ev_filename :: string
  changes :: "ReplayChange list"

definition COALESCE_WINDOW_MS :: int where
  "COALESCE_WINDOW_MS = 500"

text \<open>\<open>tryCoalesce\<close>: whether the new event was merged, and the buffer afterwards (the
  source changes the last buffered event in place).\<close>

definition tryCoalesce :: "ReplayEvent list \<Rightarrow> ReplayEvent \<Rightarrow> bool \<times> ReplayEvent list" where
  "tryCoalesce buffer newEvent =
     (if length buffer = 0 then (False, buffer)
      else
        let lastEvent = last buffer
        in if ev_filename lastEvent \<noteq> ev_filename newEvent then (False, buffer)
           else if ev_timestamp newEvent - ev_timestamp lastEvent > COALESCE_WINDOW_MS
           then (False, buffer)
           else if length (changes lastEvent) \<noteq> 1 \<or> length (changes newEvent) \<noteq> 1
           then (False, buffer)
           else
             let lastChange = hd (changes lastEvent);
                 newChange = hd (changes newEvent)
             in if rc_rangeLength lastChange \<noteq> 0 \<or> rc_rangeLength newChange \<noteq> 0
                then (False, buffer)
                else if line (rangeStart lastChange) \<noteq> line (rangeStart newChange)
                then (False, buffer)
                else
                  let expectedChar =
                        character (rangeStart lastChange) + int (length (rc_text lastChange))
                  in if character (rangeStart newChange) \<noteq> expectedChar then (False, buffer)
                     else if length (rc_text newChange) \<noteq> 1 then (False, buffer)
                     else
                       (True,
                        butlast buffer @
                        [lastEvent\<lparr>changes :=
                           [lastChange\<lparr>rc_text := rc_text lastChange @ rc_text newChange,
                                       rangeEnd :=
                                         \<lparr>line = line (rangeEnd newChange),
                                          character = character (rangeEnd newChange)\<rparr>\<rparr>]\<rparr>]))"

text \<open>The recorder's change handler on its buffer; \<open>now\<close> is \<open>Date.now()\<close>, \<open>patterns\<close>
  the recorder's \<open>excludePatterns\<close>.\<close>

definition replay_handleDocumentChange ::
  "Host \<Rightarrow> string list \<Rightarrow> int \<Rightarrow> TextDocumentChangeEvent \<Rightarrow> ReplayEvent list
     \<Rightarrow> ReplayEvent list" where
  "replay_handleDocumentChange host patterns now event buffer =
     (if length (contentChanges event) = 0 then buffer
      else if uri_scheme (document event) \<noteq> ''file'' then buffer
      else
        let relativePath = asRelativePath (document event)
        in if isExcluded host patterns relativePath then buffer
           else
             let newEvent =
                   \<lparr>ev_timestamp = now,
                    ev_filename = relativePath,
                    changes =
                      map (\<lambda>change.
                             \<lparr>rangeStart = \<lparr>line = line (range_start change),
                                             character = character (range_start change)\<rparr>,
                              rangeEnd = \<lparr>line = line (range_end change),
                                           character = character (range_end change)\<rparr>,
                              rc_text = change_text change,
                              rc_rangeLength = rangeLength change\<rparr>)
                          (contentChanges event)\<rparr>
             in (case tryCoalesce buffer newEvent of
                   (True, buffer') \<Rightarrow> buffer'
                 | (False, buffer') \<Rightarrow> buffer' @ [newEvent]))"

section \<open>Flag analyzer (flags/analyzer.ts)\<close>

definition LARGE_PASTE_THRESHOLD :: int where
  "LARGE_PASTE_THRESHOLD = 30"

definition FULLY_FORMED_LINE_THRESHOLD :: int where
  "FULLY_FORMED_LINE_THRESHOLD = 50"

definition LONG_GAP_MS :: int where
  "LONG_GAP_MS = 2 * 60 * 60 * 1000"

definition POST_GAP_WINDOW_MS :: int where
  "POST_GAP_WINDOW_MS = 30 * 60 * 1000"

definition POST_GAP_LINE_THRESHOLD :: int where
  "POST_GAP_LINE_THRESHOLD = 30"

definition NO_DEBUGGING_LINE_THRESHOLD :: int where
  "NO_DEBUGGING_LINE_THRESHOLD = 100"

definition UNUSUAL_SPEED_CPM :: int where
  "UNUSUAL_SPEED_CPM = 200"

definition SPEED_WINDOW_MS :: int where
  "SPEED_WINDOW_MS = 5 * 60 * 1000"

definition RAPID_COMPLETION_LINE_THRESHOLD :: int where
  "RAPID_COMPLETION_LINE_THRESHOLD = 200"

definition RAPID_COMPLETION_TIME_MS :: int where
  "RAPID_COMPLETION_TIME_MS = 60 * 60 * 1000"

text \<open>
  \<open>new Date(s).getTime()\<close> is a parameter \<open>getTime\<close> of the rules: the epoch
  milliseconds of a timestamp, or \<open>None\<close> for \<open>NaN\<close>, which is what a string that is no
  date gives. Arithmetic with \<open>NaN\<close> gives \<open>NaN\<close> and every comparison with it is false.
\<close>

fun js_add :: "int option \<Rightarrow> int option \<Rightarrow> int option" where
  "js_add (Some a) (Some b) = Some (a + b)"
| "js_add _ _ = None"

fun js_sub :: "int option \<Rightarrow> int option \<Rightarrow> int option" where
  "js_sub (Some a) (Some b) = Some (a - b)"
| "js_sub _ _ = None"

fun js_lt :: "int option \<Rightarrow> int option \<Rightarrow> bool" where
  "js_lt (Some a) (Some b) = (a < b)"
| "js_lt _ _ = False"

fun js_gt :: "int option \<Rightarrow> int option \<Rightarrow> bool" where
  "js_gt (Some a) (Some b) = (a > b)"
| "js_gt _ _ = False"

fun js_le :: "int option \<Rightarrow> int option \<Rightarrow> bool" where
  "js_le (Some a) (Some b) = (a \<le> b)"
| "js_le _ _ = False"

fun detectLargePaste :: "Snapshot list \<Rightarrow> Flag list" where
  "detectLargePaste [] = []"
| "detectLargePaste (snapshot # rest) =
     (if lines_added snapshot \<ge> LARGE_PASTE_THRESHOLD \<and> change_type snapshot = Paste
      then \<lparr>flag_category = large_paste, flag_severity = Medium,
            flag_timestamp = timestamp snapshot, flag_filename = filename snapshot,
            snapshotIds = [snapshot_id snapshot]\<rparr> # detectLargePaste rest
      else detectLargePaste rest)"

text \<open>The inner loop of \<open>detectFullyFormedCode\<close> over the snapshots after position \<open>i\<close>.\<close>

fun wasEditedAfter :: "string \<Rightarrow> Snapshot list \<Rightarrow> bool" where
  "wasEditedAfter name [] = False"
| "wasEditedAfter name (later # rest) =
     (if filename later = name then True else wasEditedAfter name rest)"

fun detectFullyFormedCode :: "Snapshot list \<Rightarrow> Flag list" where
  "detectFullyFormedCode [] = []"
| "detectFullyFormedCode (snapshot # rest) =
     (if lines_added snapshot < FULLY_FORMED_LINE_THRESHOLD then detectFullyFormedCode rest
      else if \<not> wasEditedAfter (filename snapshot) rest
      then \<lparr>flag_category = fully_formed_code, flag_severity = High,
            flag_timestamp = timestamp snapshot, flag_filename = filename snapshot,
            snapshotIds = [snapshot_id snapshot]\<rparr> # detectFullyFormedCode rest
      else detectFullyFormedCode rest)"

text \<open>
  The inner loop of \<open>detectLongGapThenCompletion\<close> and of \<open>detectUnusualSpeed\<close>: from
  position \<open>i\<close> on, until a snapshot lies after \<open>windowEnd\<close>, add up a field and collect
  the ids.
\<close>

fun window_loop ::
  "(string \<Rightarrow> int option) \<Rightarrow> (Snapshot \<Rightarrow> int) \<Rightarrow> int option \<Rightarrow> Snapshot list
     \<Rightarrow> int \<times> string list" where
  "window_loop getTime field windowEnd [] = (0, [])"
| "window_loop getTime field windowEnd (s # rest) =
     (let snapTime = getTime (timestamp s)
      in if js_gt snapTime windowEnd then (0, [])
         else (case window_loop getTime field windowEnd rest of
                 (acc, ids) \<Rightarrow> (field s + acc, snapshot_id s # ids)))"

fun detectLongGapThenCompletion :: "(string \<Rightarrow> int option) \<Rightarrow> Snapshot list \<Rightarrow> Flag list" where
  "detectLongGapThenCompletion getTime (prev # cur # rest) =
     (let prevTime = getTime (timestamp prev);
          currTime = getTime (timestamp cur);
          gap = js_sub currTime prevTime
      in if js_lt gap (Some LONG_GAP_MS)
         then detectLongGapThenCompletion getTime (cur # rest)
         else
           let windowEnd = js_add currTime (Some POST_GAP_WINDOW_MS);
               (linesAddedAfterGap, relevantSnapshotIds) =
                 window_loop getTime lines_added windowEnd (cur # rest)
           in if linesAddedAfterGap \<ge> POST_GAP_LINE_THRESHOLD
              then \<lparr>flag_category = long_gap, flag_severity = Medium,
                    flag_timestamp = timestamp cur, flag_filename = filename cur,
                    snapshotIds = relevantSnapshotIds\<rparr>
                   # detectLongGapThenCompletion getTime (cur # rest)
              else detectLongGapThenCompletion getTime (cur # rest))"
| "detectLongGapThenCompletion getTime _ = []"

text \<open>The number of matches of \<open>/[a-z][A-Z]/g\<close> and of \<open>/[a-z]_[a-z]/g\<close> in a line: the
  search goes on after the end of each match.\<close>

definition is_lower :: "char \<Rightarrow> bool" where
  "is_lower c = (97 \<le> (of_char c :: nat) \<and> (of_char c :: nat) \<le> 122)"

definition is_upper :: "char \<Rightarrow> bool" where
  "is_upper c = (65 \<le> (of_char c :: nat) \<and> (of_char c :: nat) \<le> 90)"

fun camelMatches :: "string \<Rightarrow> nat" where
  "camelMatches (a # b # rest) =
     (if is_lower a \<and> is_upper b then 1 + camelMatches rest
      else camelMatches (b # rest))"
| "camelMatches _ = 0"

fun snakeMatches :: "string \<Rightarrow> nat" where
  "snakeMatches (a # b # c # rest) =
     (if is_lower a \<and> b = CHR ''_'' \<and> is_lower c then 1 + snakeMatches rest
      else snakeMatches (b # c # rest))"
| "snakeMatches _ = 0"

datatype NamingConvention = camelCase | snake_case

definition addedLines :: "Snapshot \<Rightarrow> string list" where
  "addedLines snapshot =
     filter (\<lambda>l. startsWith l ''+'' \<and> \<not> startsWith l ''+++'') (split_lines (diff snapshot))"

definition detectNamingConvention :: "Snapshot list \<Rightarrow> NamingConvention option" where
  "detectNamingConvention snapshots =
     (let camelCount = sum_list (map camelMatches (concat (map addedLines snapshots)));
          snakeCount = sum_list (map snakeMatches (concat (map addedLines snapshots)));
          total' = camelCount + snakeCount
      in if total' < 5 then None
         else
           let camelRatio = real camelCount / real total'
           in if camelRatio > 0.7 then Some camelCase
              else if camelRatio < 0.3 then Some snake_case
              else None)"

text \<open>Grouping the snapshots by file, in a \<open>Map\<close> from the filename to its snapshots.\<close>

fun groupByFile ::
  "Snapshot list \<Rightarrow> (string \<times> Snapshot list) list \<Rightarrow> (string \<times> Snapshot list) list" where
  "groupByFile [] fileSnapshots = fileSnapshots"
| "groupByFile (snapshot # rest) fileSnapshots =
     (case map_of fileSnapshots (filename snapshot) of
        Some existing \<Rightarrow>
          groupByFile rest
            (AList.update (filename snapshot) (existing @ [snapshot]) fileSnapshots)
      | None \<Rightarrow>
          groupByFile rest (AList.update (filename snapshot) [snapshot] fileSnapshots))"

fun styleFlags :: "(string \<times> Snapshot list) list \<Rightarrow> Flag list" where
  "styleFlags [] = []"
| "styleFlags ((name, fileSnaps) # groups) =
     (if length fileSnaps < 2 then styleFlags groups
      else
        let half = (length fileSnaps + 1) div 2;
            earlySnaps = take half fileSnaps;
            lateSnaps = drop half fileSnaps;
            earlyStyle = detectNamingConvention earlySnaps;
            lateStyle = detectNamingConvention lateSnaps
        in if earlyStyle \<noteq> None \<and> lateStyle \<noteq> None \<and> earlyStyle \<noteq> lateStyle
           then \<lparr>flag_category = style_inconsistency, flag_severity = Medium,
                 flag_timestamp = timestamp (hd lateSnaps), flag_filename = name,
                 snapshotIds = map snapshot_id fileSnaps\<rparr> # styleFlags groups
           else styleFlags groups)"

definition detectStyleInconsistency :: "Snapshot list \<Rightarrow> Flag list" where
  "detectStyleInconsistency snapshots = styleFlags (groupByFile snapshots [])"

record FileStats =
  totalAdded :: int
  totalRemoved :: int
  stat_snapshotIds :: "string list"
  firstTimestamp :: string

fun collectFileStats ::
  "Snapshot list \<Rightarrow> (string \<times> FileStats) list \<Rightarrow> (string \<times> FileStats) list" where
  "collectFileStats [] fileStats = fileStats"
| "collectFileStats (snapshot # rest) fileStats =
     (case map_of fileStats (filename snapshot) of
        Some existing \<Rightarrow>
          collectFileStats rest
            (AList.update (filename snapshot)
               (existing\<lparr>totalAdded := totalAdded existing + lines_added snapshot,
                          totalRemoved := totalRemoved existing + lines_removed snapshot,
                          stat_snapshotIds :=
                            stat_snapshotIds existing @ [snapshot_id snapshot]\<rparr>)
               fileStats)
      | None \<Rightarrow>
          collectFileStats rest
            (AList.update (filename snapshot)
               \<lparr>totalAdded = lines_added snapshot,
                totalRemoved = lines_removed snapshot,
                stat_snapshotIds = [snapshot_id snapshot],
                firstTimestamp = timestamp snapshot\<rparr>
               fileStats))"

fun noDebuggingFlags :: "(string \<times> FileStats) list \<Rightarrow> Flag list" where
  "noDebuggingFlags [] = []"
| "noDebuggingFlags ((name, stats) # entries) =
     (if totalAdded stats \<ge> NO_DEBUGGING_LINE_THRESHOLD \<and> totalRemoved stats = 0
      then \<lparr>flag_category = no_debugging, flag_severity = Low,
            flag_timestamp = firstTimestamp stats, flag_filename = name,
            snapshotIds = stat_snapshotIds stats\<rparr> # noDebuggingFlags entries
      else noDebuggingFlags entries)"

definition detectNoDebugging :: "Snapshot list \<Rightarrow> Flag list" where
  "detectNoDebugging snapshots = noDebuggingFlags (collectFileStats snapshots [])"

text \<open>The outer loop of \<open>detectUnusualSpeed\<close> from position \<open>i\<close> on, with the set
  \<open>flaggedWindows\<close> of the ids that already started a flagged window.\<close>

fun unusualSpeed_loop ::
  "(string \<Rightarrow> int option) \<Rightarrow> string list \<Rightarrow> Snapshot list \<Rightarrow> Flag list" where
  "unusualSpeed_loop getTime flaggedWindows [] = []"
| "unusualSpeed_loop getTime flaggedWindows (s # rest) =
     (let windowStart = getTime (timestamp s);
          windowEnd = js_add windowStart (Some SPEED_WINDOW_MS);
          (totalChars, windowSnapshotIds) =
            window_loop getTime change_size windowEnd (s # rest);
          windowDurationMinutes = real_of_int SPEED_WINDOW_MS / 60000;
          charsPerMinute = real_of_int totalChars / windowDurationMinutes
      in if charsPerMinute \<ge> real_of_int UNUSUAL_SPEED_CPM \<and> length windowSnapshotIds \<ge> 2
         then (if snapshot_id s \<in> set flaggedWindows
               then unusualSpeed_loop getTime flaggedWindows rest
               else \<lparr>flag_category = unusual_typing_speed, flag_severity = Low,
                     flag_timestamp = timestamp s, flag_filename = filename s,
                     snapshotIds = windowSnapshotIds\<rparr>
                    # unusualSpeed_loop getTime (snapshot_id s # flaggedWindows) rest)
         else unusualSpeed_loop getTime flaggedWindows rest)"

definition detectUnusualSpeed :: "(string \<Rightarrow> int option) \<Rightarrow> Snapshot list \<Rightarrow> Flag list" where
  "detectUnusualSpeed getTime snapshots = unusualSpeed_loop getTime [] snapshots"

definition detectRapidCompletion :: "(string \<Rightarrow> int option) \<Rightarrow> Snapshot list \<Rightarrow> Flag list" where
  "detectRapidCompletion getTime snapshots =
     (if length snapshots < 2 then []
      else
        let firstTime = getTime (timestamp (snapshots ! 0));
            lastTime = getTime (timestamp (snapshots ! (length snapshots - 1)));
            elapsed = js_sub lastTime firstTime;
            totalLinesAdded = foldl (\<lambda>acc snap. acc + lines_added snap) 0 snapshots
        in if js_le elapsed (Some RAPID_COMPLETION_TIME_MS)
              \<and> totalLinesAdded \<ge> RAPID_COMPLETION_LINE_THRESHOLD
           then [\<lparr>flag_category = rapid_completion, flag_severity = Low,
                  flag_timestamp = timestamp (snapshots ! 0),
                  flag_filename = filename (snapshots ! 0),
                  snapshotIds = map snapshot_id snapshots\<rparr>]
           else [])"

definition analyze :: "(string \<Rightarrow> int option) \<Rightarrow> Snapshot list \<Rightarrow> Flag list" where
  "analyze getTime snapshots =
     (if length snapshots = 0 then []
      else detectLargePaste snapshots
           @ detectFullyFormedCode snapshots
           @ detectLongGapThenCompletion getTime snapshots
           @ detectStyleInconsistency snapshots
           @ detectNoDebugging snapshots
           @ detectUnusualSpeed getTime snapshots
           @ detectRapidCompletion getTime snapshots)"

section \<open>Notions used in the statements\<close>

text \<open>An event that \<open>handleDocumentChange\<close> does not skip: it has a change, its document
  is a file, and its path matches no exclude pattern.\<close>

definition isTracked :: "Host \<Rightarrow> string list \<Rightarrow> TextDocumentChangeEvent \<Rightarrow> bool" where
  "isTracked host patterns event =
     (length (contentChanges event) \<noteq> 0 \<and> uri_scheme (document event) = ''file''
      \<and> \<not> isExcluded host patterns (asRelativePath (document event)))"

text \<open>The characters an event inserts and the characters it removes, over all its
  ranges.\<close>

definition eventAdded :: "TextDocumentChangeEvent \<Rightarrow> int" where
  "eventAdded event =
     sum_list (map (\<lambda>change. int (length (change_text change))) (contentChanges event))"

definition eventRemoved :: "TextDocumentChangeEvent \<Rightarrow> int" where
  "eventRemoved event = sum_list (map rangeLength (contentChanges event))"

text \<open>The last recorded content of a file, as \<open>emitSnapshot\<close> reads it:
  \<open>this.fileContents.get(filePath) ?? ''\<close>.\<close>

definition baselineOf :: "SnapshotEngine \<Rightarrow> string \<Rightarrow> string" where
  "baselineOf st filePath =
     (case map_of (fileContents st) filePath of Some c \<Rightarrow> c | None \<Rightarrow> [])"

section \<open>Example inputs\<close>

text \<open>A toy digest for the examples: it puts a mark in front of its argument.\<close>

definition toy_digest :: "string \<Rightarrow> string" where
  "toy_digest s = CHR ''#'' # s"

definition row1 :: Snapshot where
  "row1 = \<lparr>snapshot_id = ''s1'', timestamp = ''1'', filename = ''a.ts'',
           content_hash = ''a'', diff = [], lines_added = 1, lines_removed = 0,
           total_lines = 1, change_type = Typing, change_size = 1,
           chain_hash = ''#a1'', session_id = ''S''\<rparr>"

definition row2 :: Snapshot where
  "row2 = \<lparr>snapshot_id = ''s2'', timestamp = ''2'', filename = ''a.ts'',
           content_hash = ''b'', diff = [], lines_added = 1, lines_removed = 0,
           total_lines = 2, change_type = Typing, change_size = 1,
           chain_hash = ''##a1b2'', session_id = ''S''\<rparr>"

definition doc_a :: TextDocument where
  "doc_a = \<lparr>uri_scheme = ''file'', uri_fsPath = ''/w/a.ts'', asRelativePath = ''a.ts'',
            getText = ''let x'', lineCount = 1\<rparr>"

text \<open>A host with one open document, the toy digest, a diff that marks the new text as
  one added line, exclude patterns that match a path literally, and clock readings and
  UUIDs that grow with the number of draws.\<close>

definition example_host :: Host where
  "example_host =
     \<lparr>textDocuments = [doc_a],
      sha256_hex = toy_digest,
      createPatch = (\<lambda>name old new. Inr (CHR ''+'' # new)),
      minimatch = (\<lambda>path pattern. path = pattern),
      toISOString_now = (\<lambda>n. replicate (Suc n) (CHR ''t'')),
      randomUUID = (\<lambda>n. replicate (Suc n) (CHR ''u''))\<rparr>"

definition example_db :: SnapshotStorage where
  "example_db =
     \<lparr>snapshots_tbl = [],
      sessions_tbl = [\<lparr>sess_id = ''S'', started_at = ''s'', ended_at = [],
                       project_name = ''w'', files_touched = [], total_snapshots = 0\<rparr>],
      db_writable = True\<rparr>"

text \<open>A running engine right after \<open>start\<close>.\<close>

definition engine0 :: SnapshotEngine where
  "engine0 =
     \<lparr>fileContents = [], pendingChanges = [], isRunning = True, isPaused = False,
      sessionId = ''S'', snapshotCount = 0, lastChainHash = [],
      excludePatterns = [''node_modules''], pasteThreshold = 50,
      storage = Some example_db, intervalHandle = True, listening = True,
      fired = [], console_errors = [], drawn = 0\<rparr>"

text \<open>An edit of \<open>doc_a\<close> with one range at the given column: the inserted text and the
  length of the text it replaces.\<close>

definition edit_a :: "int \<Rightarrow> string \<Rightarrow> int \<Rightarrow> TextDocumentChangeEvent" where
  "edit_a col txt removed =
     \<lparr>document = doc_a,
      contentChanges =
        [\<lparr>range_start = \<lparr>line = 0, character = col\<rparr>,
          range_end = \<lparr>line = 0, character = col + removed\<rparr>,
          change_text = txt, rangeLength = removed\<rparr>]\<rparr>"

text \<open>A rename in \<open>doc_a\<close>: one event that replaces one character at two places.\<close>

definition rename_a :: TextDocumentChangeEvent where
  "rename_a =
     \<lparr>document = doc_a,
      contentChanges =
        [\<lparr>range_start = \<lparr>line = 0, character = 4\<rparr>,
          range_end = \<lparr>line = 0, character = 5\<rparr>,
          change_text = ''y'', rangeLength = 1\<rparr>,
         \<lparr>range_start = \<lparr>line = 2, character = 0\<rparr>,
          range_end = \<lparr>line = 2, character = 1\<rparr>,
          change_text = ''y'', rangeLength = 1\<rparr>]\<rparr>"

text \<open>The snapshot the example host gives for \<open>doc_a\<close> after five typed characters on a
  fresh engine.\<close>

definition snap_a :: Snapshot where
  "snap_a = \<lparr>snapshot_id = ''u'', timestamp = ''t'', filename = ''a.ts'',
             content_hash = ''#let x'', diff = ''+let x'', lines_added = 1,
             lines_removed = 0, total_lines = 1, change_type = Typing, change_size = 5,
             chain_hash = ''##let xt'', session_id = ''S''\<rparr>"

text \<open>The engine after the text of \<open>doc_a\<close> was typed and one flush has run, and then a
  character was typed and deleted again: the file has a pending entry, and its live
  content is its recorded content.\<close>

definition engine_noop_edit :: SnapshotEngine where
  "engine_noop_edit =
     handleDocumentChange example_host (edit_a 5 [] 1)
       (handleDocumentChange example_host (edit_a 5 ''y'' 0)
          (processSnapshots example_host
             (handleDocumentChange example_host (edit_a 0 ''let x'' 0) engine0)))"

text \<open>An engine whose database refuses writes, with the text of \<open>doc_a\<close> pending.\<close>

definition engine_readonly :: SnapshotEngine where
  "engine_readonly =
     handleDocumentChange example_host (edit_a 0 ''let x'' 0)
       (engine0\<lparr>storage := Some (example_db\<lparr>db_writable := False\<rparr>)\<rparr>)"

text \<open>An engine that was paused and then received the text of \<open>doc_a\<close>.\<close>

definition engine_paused :: SnapshotEngine where
  "engine_paused =
     handleDocumentChange example_host (edit_a 0 ''let x'' 0) (pause engine0)"

text \<open>A toy reading of timestamps: a timestamp of \<open>n\<close> characters is minute \<open>n\<close>, the
  empty string is no date.\<close>

definition toy_getTime :: "string \<Rightarrow> int option" where
  "toy_getTime s = (if s = [] then None else Some (int (length s) * 60000))"

text \<open>A file that receives one snapshot, a paste of 42 lines.\<close>

definition paste42 :: Snapshot where
  "paste42 = \<lparr>snapshot_id = ''p1'', timestamp = ''t'', filename = ''b.ts'',
              content_hash = ''h'', diff = [], lines_added = 42, lines_removed = 0,
              total_lines = 42, change_type = Paste, change_size = 900,
              chain_hash = ''c'', session_id = ''S''\<rparr>"

text \<open>Two snapshots one minute apart that add 250 lines together, and a single
  snapshot that adds 250 lines.\<close>

definition burst1 :: Snapshot where
  "burst1 = \<lparr>snapshot_id = ''r1'', timestamp = ''t'', filename = ''c.ts'',
             content_hash = ''h1'', diff = [], lines_added = 100, lines_removed = 3,
             total_lines = 100, change_type = Typing, change_size = 10,
             chain_hash = ''c1'', session_id = ''S''\<rparr>"

definition burst2 :: Snapshot where
  "burst2 = \<lparr>snapshot_id = ''r2'', timestamp = ''tt'', filename = ''c.ts'',
             content_hash = ''h2'', diff = [], lines_added = 150, lines_removed = 2,
             total_lines = 245, change_type = Typing, change_size = 10,
             chain_hash = ''c2'', session_id = ''S''\<rparr>"

definition single250 :: Snapshot where
  "single250 = \<lparr>snapshot_id = ''q1'', timestamp = ''t'', filename = ''d.ts'',
                content_hash = ''h'', diff = [], lines_added = 250, lines_removed = 4,
                total_lines = 250, change_type = Typing, change_size = 10,
                chain_hash = ''c'', session_id = ''S''\<rparr>"

section \<open>Properties of the change classifier\<close>

text \<open>
  Claim C5. For every change event, \<open>detect\<close> returns the first matching rule of: zero
  ranges give typing; more than one range gives refactor, whatever the sizes; exactly one
  range whose inserted length reaches the paste threshold gives paste; exactly one range
  removing at least 30 characters and inserting none gives delete; anything else gives
  typing. At the default threshold 50, a single range inserting exactly 50 characters is
  a paste and one inserting 49 characters is typing.
\<close>

theorem detect_first_match:
  "detect thr cs =
     (if length cs = 0 then Typing
      else if length cs > 1 then Refactor
      else if int (length (change_text (hd cs))) \<ge> thr then Paste
      else if rangeLength (hd cs) \<ge> 30 \<and> length (change_text (hd cs)) = 0 then Delete
      else Typing)
   \<and> (length (change_text c) = 50 \<longrightarrow> detect DEFAULT_PASTE_CHAR_THRESHOLD [c] = Paste)
   \<and> (length (change_text c) = 49 \<longrightarrow> detect DEFAULT_PASTE_CHAR_THRESHOLD [c] = Typing)"
  by (cases cs)
     (simp_all add: Let_def DELETE_CHAR_THRESHOLD_def DEFAULT_PASTE_CHAR_THRESHOLD_def)

theorem detect_first_match_witness:
  "detect 50 [\<lparr>range_start = \<lparr>line = 0, character = 0\<rparr>,
               range_end = \<lparr>line = 0, character = 40\<rparr>,
               change_text = [], rangeLength = 40\<rparr>] = Delete
   \<and> detect DEFAULT_PASTE_CHAR_THRESHOLD
        [\<lparr>range_start = \<lparr>line = 0, character = 0\<rparr>,
          range_end = \<lparr>line = 0, character = 0\<rparr>,
          change_text = replicate 50 (CHR ''x''), rangeLength = 0\<rparr>] = Paste
   \<and> detect DEFAULT_PASTE_CHAR_THRESHOLD
        [\<lparr>range_start = \<lparr>line = 0, character = 0\<rparr>,
          range_end = \<lparr>line = 0, character = 0\<rparr>,
          change_text = replicate 49 (CHR ''x''), rangeLength = 0\<rparr>] = Typing"
  using detect_first_match
          [of 50 "[\<lparr>range_start = \<lparr>line = 0, character = 0\<rparr>,
                     range_end = \<lparr>line = 0, character = 40\<rparr>,
                     change_text = [], rangeLength = 40\<rparr>]"
              "\<lparr>range_start = \<lparr>line = 0, character = 0\<rparr>,
                range_end = \<lparr>line = 0, character = 0\<rparr>,
                change_text = replicate 50 (CHR ''x''), rangeLength = 0\<rparr>"]
        detect_first_match
          [of 50 "[]"
              "\<lparr>range_start = \<lparr>line = 0, character = 0\<rparr>,
                range_end = \<lparr>line = 0, character = 0\<rparr>,
                change_text = replicate 49 (CHR ''x''), rangeLength = 0\<rparr>"]
  by simp

section \<open>Properties of the chain store\<close>

lemma verify_loop_iff:
  "verify_loop sha p rows =
     (\<forall>i<length rows.
        chain_hash (rows ! i) =
          sha ((if i = 0 then p else chain_hash (rows ! (i - 1)))
               @ content_hash (rows ! i) @ timestamp (rows ! i)))"
proof (induction rows arbitrary: p)
  case Nil
  show ?case by simp
next
  case (Cons r rows)
  show ?case
  proof (cases "sha (p @ content_hash r @ timestamp r) = chain_hash r")
    case False
    then have "\<not> verify_loop sha p (r # rows)" by simp
    moreover have "\<not> (\<forall>i<length (r # rows).
        chain_hash ((r # rows) ! i) =
          sha ((if i = 0 then p else chain_hash ((r # rows) ! (i - 1)))
               @ content_hash ((r # rows) ! i) @ timestamp ((r # rows) ! i)))"
    proof
      assume a: "\<forall>i<length (r # rows).
        chain_hash ((r # rows) ! i) =
          sha ((if i = 0 then p else chain_hash ((r # rows) ! (i - 1)))
               @ content_hash ((r # rows) ! i) @ timestamp ((r # rows) ! i))"
      have "0 < length (r # rows)" by simp
      with a have "chain_hash ((r # rows) ! 0) =
          sha ((if (0::nat) = 0 then p else chain_hash ((r # rows) ! (0 - 1)))
               @ content_hash ((r # rows) ! 0) @ timestamp ((r # rows) ! 0))" by blast
      with False show False by simp
    qed
    ultimately show ?thesis by blast
  next
    case True
    then have "verify_loop sha p (r # rows) = verify_loop sha (chain_hash r) rows"
      by simp
    also have "\<dots> = (\<forall>i<length rows.
        chain_hash (rows ! i) =
          sha ((if i = 0 then chain_hash r else chain_hash (rows ! (i - 1)))
               @ content_hash (rows ! i) @ timestamp (rows ! i)))"
      by (rule Cons.IH)
    also have "\<dots> = (\<forall>i<length (r # rows).
        chain_hash ((r # rows) ! i) =
          sha ((if i = 0 then p else chain_hash ((r # rows) ! (i - 1)))
               @ content_hash ((r # rows) ! i) @ timestamp ((r # rows) ! i)))"
      (is "?L = ?R")
    proof
      assume l: ?L
      show ?R
      proof (intro allI impI)
        fix i assume "i < length (r # rows)"
        show "chain_hash ((r # rows) ! i) =
          sha ((if i = 0 then p else chain_hash ((r # rows) ! (i - 1)))
               @ content_hash ((r # rows) ! i) @ timestamp ((r # rows) ! i))"
        proof (cases i)
          case 0
          with True show ?thesis by simp
        next
          case (Suc j)
          with \<open>i < length (r # rows)\<close> have "j < length rows" by simp
          with l have "chain_hash (rows ! j) =
            sha ((if j = 0 then chain_hash r else chain_hash (rows ! (j - 1)))
               @ content_hash (rows ! j) @ timestamp (rows ! j))" by blast
          with Suc show ?thesis by (cases j) simp_all
        qed
      qed
    next
      assume r: ?R
      show ?L
      proof (intro allI impI)
        fix j assume "j < length rows"
        then have "Suc j < length (r # rows)" by simp
        with r have "chain_hash ((r # rows) ! Suc j) =
          sha ((if Suc j = 0 then p else chain_hash ((r # rows) ! (Suc j - 1)))
               @ content_hash ((r # rows) ! Suc j) @ timestamp ((r # rows) ! Suc j))" by blast
        then show "chain_hash (rows ! j) =
            sha ((if j = 0 then chain_hash r else chain_hash (rows ! (j - 1)))
               @ content_hash (rows ! j) @ timestamp (rows ! j))"
          by (cases j) simp_all
      qed
    qed
    finally show ?thesis .
  qed
qed

text \<open>
  Claim C1. Let \<open>rows\<close> be the stored snapshots in ascending timestamp order (a sorted
  rearrangement of the table). \<open>verifyHashChain\<close> returns true if and only if every
  stored \<open>chain_hash\<close> is the digest of the previous stored \<open>chain_hash\<close> (the empty
  string for the first row), the row's \<open>content_hash\<close> and its \<open>timestamp\<close>; so a mismatch
  at any single position makes it return false.
\<close>

theorem verifyHashChain_iff:
  assumes "rows = select_order_by_timestamp db"
  shows "sorted (map timestamp rows) \<and> mset rows = mset (snapshots_tbl db)
         \<and> (verifyHashChain sha256 db \<longleftrightarrow>
              (\<forall>i<length rows.
                 chain_hash (rows ! i) =
                   sha256 ((if i = 0 then [] else chain_hash (rows ! (i - 1)))
                           @ content_hash (rows ! i) @ timestamp (rows ! i))))"
  using assms
  by (simp add: verifyHashChain_def verify_loop_iff [of sha256 "[]"]
        select_order_by_timestamp_def)

theorem verifyHashChain_iff_witness:
  "select_order_by_timestamp
     \<lparr>snapshots_tbl = [row2, row1], sessions_tbl = [], db_writable = True\<rparr> = [row1, row2]
   \<and> verifyHashChain toy_digest
        \<lparr>snapshots_tbl = [row2, row1], sessions_tbl = [], db_writable = True\<rparr>
   \<and> \<not> verifyHashChain toy_digest
        \<lparr>snapshots_tbl = [row2\<lparr>chain_hash := ''##a1b3''\<rparr>, row1], sessions_tbl = [],
         db_writable = True\<rparr>"
proof -
  have s: "select_order_by_timestamp
     \<lparr>snapshots_tbl = [row2, row1], sessions_tbl = [], db_writable = True\<rparr> = [row1, row2]"
    by (simp add: select_order_by_timestamp_def row1_def row2_def)
  have t: "select_order_by_timestamp
     \<lparr>snapshots_tbl = [row2\<lparr>chain_hash := ''##a1b3''\<rparr>, row1], sessions_tbl = [],
      db_writable = True\<rparr> = [row1, row2\<lparr>chain_hash := ''##a1b3''\<rparr>]"
    by (simp add: select_order_by_timestamp_def row1_def row2_def)
  have two: "\<And>P. (\<forall>i<Suc (Suc 0). P i) = (P 0 \<and> P (Suc 0))"
    by (auto simp: less_Suc_eq)
  show ?thesis
    using verifyHashChain_iff [OF s [symmetric], of toy_digest]
          verifyHashChain_iff [OF t [symmetric], of toy_digest] s
    by (simp add: two toy_digest_def row1_def row2_def)
qed

section \<open>Properties of the aggregator\<close>

lemma handleDocumentChange_config [simp]:
  "excludePatterns (handleDocumentChange host ev st) = excludePatterns st"
  "pasteThreshold (handleDocumentChange host ev st) = pasteThreshold st"
  by (simp_all add: handleDocumentChange_def Let_def split: option.splits)

lemma fold_handleDocumentChange_config [simp]:
  "excludePatterns (fold (handleDocumentChange host) es st) = excludePatterns st"
  "pasteThreshold (fold (handleDocumentChange host) es st) = pasteThreshold st"
  by (induction es arbitrary: st) simp_all

lemma pending_other_file:
  "\<not> (isTracked host (excludePatterns st) ev \<and> uri_fsPath (document ev) = f) \<Longrightarrow>
   map_of (pendingChanges (handleDocumentChange host ev st)) f = map_of (pendingChanges st) f"
  by (auto simp: handleDocumentChange_def isTracked_def Let_def update_conv'
           split: option.splits)

lemma pending_created:
  "isTracked host (excludePatterns st) ev \<Longrightarrow> uri_fsPath (document ev) = f \<Longrightarrow>
   map_of (pendingChanges st) f = None \<Longrightarrow>
   map_of (pendingChanges (handleDocumentChange host ev st)) f =
     Some \<lparr>changeType = detect (pasteThreshold st) (contentChanges ev),
           charsAdded = eventAdded ev, charsRemoved = eventRemoved ev\<rparr>"
  by (auto simp: handleDocumentChange_def isTracked_def Let_def update_conv'
                 eventAdded_def eventRemoved_def split: option.splits)

lemma pending_merged:
  "isTracked host (excludePatterns st) ev \<Longrightarrow> uri_fsPath (document ev) = f \<Longrightarrow>
   map_of (pendingChanges st) f = Some p \<Longrightarrow>
   map_of (pendingChanges (handleDocumentChange host ev st)) f =
     Some \<lparr>changeType =
             (if CHANGE_TYPE_PRIORITY (detect (pasteThreshold st) (contentChanges ev))
                   > CHANGE_TYPE_PRIORITY (changeType p)
              then detect (pasteThreshold st) (contentChanges ev) else changeType p),
           charsAdded = charsAdded p + eventAdded ev,
           charsRemoved = charsRemoved p + eventRemoved ev\<rparr>"
  by (auto simp: handleDocumentChange_def isTracked_def Let_def update_conv'
                 eventAdded_def eventRemoved_def split: option.splits)

lemma pending_stays_absent:
  "map_of (pendingChanges st) f = None \<Longrightarrow>
   filter (\<lambda>ev. isTracked host (excludePatterns st) ev \<and> uri_fsPath (document ev) = f) es = [] \<Longrightarrow>
   map_of (pendingChanges (fold (handleDocumentChange host) es st)) f = None"
proof (induction es rule: rev_induct)
  case Nil
  then show ?case by simp
next
  case (snoc e es)
  then show ?case
    by (auto simp: pending_other_file split: if_splits)
qed

lemma pending_entry_aggregate:
  assumes "map_of (pendingChanges st) f = None"
    and "rel = filter (\<lambda>ev. isTracked host (excludePatterns st) ev
                             \<and> uri_fsPath (document ev) = f) es"
    and "rel \<noteq> []"
  shows "\<exists>p. map_of (pendingChanges (fold (handleDocumentChange host) es st)) f = Some p
      \<and> changeType p \<in> (\<lambda>ev. detect (pasteThreshold st) (contentChanges ev)) ` set rel
      \<and> CHANGE_TYPE_PRIORITY (changeType p)
          = Max ((\<lambda>ev. CHANGE_TYPE_PRIORITY (detect (pasteThreshold st) (contentChanges ev)))
                  ` set rel)
      \<and> charsAdded p = sum_list (map eventAdded rel)
      \<and> charsRemoved p = sum_list (map eventRemoved rel)"
  using assms
proof (induction es arbitrary: rel rule: rev_induct)
  case Nil
  then show ?case by simp
next
  case (snoc e es)
  let ?rel' = "filter (\<lambda>ev. isTracked host (excludePatterns st) ev
                            \<and> uri_fsPath (document ev) = f) es"
  let ?st' = "fold (handleDocumentChange host) es st"
  let ?prio = "\<lambda>ev. CHANGE_TYPE_PRIORITY (detect (pasteThreshold st) (contentChanges ev))"
  show ?case
  proof (cases "isTracked host (excludePatterns st) e \<and> uri_fsPath (document e) = f")
    case False
    then have "rel = ?rel'" using snoc.prems by simp
    with snoc.IH [of ?rel'] snoc.prems False show ?thesis
      by (simp add: pending_other_file)
  next
    case True
    then have rel: "rel = ?rel' @ [e]" using snoc.prems by simp
    show ?thesis
    proof (cases "?rel' = []")
      case True
      then have "map_of (pendingChanges ?st') f = None"
        using pending_stays_absent snoc.prems(1) by blast
      with \<open>isTracked host (excludePatterns st) e \<and> uri_fsPath (document e) = f\<close> rel True
      show ?thesis
        by (simp add: pending_created)
    next
      case False
      from snoc.IH [OF snoc.prems(1) refl False]
      obtain p where p: "map_of (pendingChanges ?st') f = Some p"
        "changeType p \<in> (\<lambda>ev. detect (pasteThreshold st) (contentChanges ev)) ` set ?rel'"
        "CHANGE_TYPE_PRIORITY (changeType p) = Max (?prio ` set ?rel')"
        "charsAdded p = sum_list (map eventAdded ?rel')"
        "charsRemoved p = sum_list (map eventRemoved ?rel')" by blast
      have ne: "?prio ` set ?rel' \<noteq> {}"
        using False by (auto simp: filter_empty_conv)
      have fin: "finite (?prio ` set ?rel')"
        by simp
      have mx: "Max (?prio ` set rel) = max (?prio e) (CHANGE_TYPE_PRIORITY (changeType p))"
        unfolding rel p(3) using Max_insert [OF fin ne] by simp
      show ?thesis
        using True p(1,2,4,5) mx rel
        by (auto simp: pending_merged [where p = p] max_def)
    qed
  qed
qed

text \<open>The type of greatest priority in a set of change types, spelled out: paste if
  there is one, else refactor if there is one, else delete if there is one, else typing.\<close>

lemma greatest_priority_type:
  assumes "finite T" and "ct \<in> T"
    and "CHANGE_TYPE_PRIORITY ct = Max (CHANGE_TYPE_PRIORITY ` T)"
  shows "ct = (if Paste \<in> T then Paste
               else if Refactor \<in> T then Refactor
               else if Delete \<in> T then Delete
               else Typing)"
proof -
  have le: "CHANGE_TYPE_PRIORITY t \<le> CHANGE_TYPE_PRIORITY ct" if "t \<in> T" for t
    using that assms(1,3) by simp
  have all: "t = Typing \<or> t = Delete \<or> t = Refactor \<or> t = Paste" for t
    by (cases t) simp_all
  show ?thesis
  proof (cases "Paste \<in> T")
    case True
    from le [OF True] show ?thesis using True by (cases ct) simp_all
  next
    case noPaste: False
    show ?thesis
    proof (cases "Refactor \<in> T")
      case True
      from le [OF True] assms(2) noPaste show ?thesis using True by (cases ct) auto
    next
      case noRefactor: False
      show ?thesis
      proof (cases "Delete \<in> T")
        case True
        from le [OF True] assms(2) noPaste noRefactor show ?thesis
          using True by (cases ct) auto
      next
        case False
        with assms(2) noPaste noRefactor show ?thesis by (cases ct) auto
      qed
    qed
  qed
qed

text \<open>
  Claim C6. Take a file \<open>f\<close> with no pending entry (the state a flush leaves) and any
  sequence \<open>es\<close> of change events delivered before the next flush; let \<open>rel\<close> be the
  events of \<open>es\<close> that the engine tracks for \<open>f\<close>, and suppose there is one. Then \<open>f\<close> has
  a pending entry. Its change type is the greatest of the types of those edits in the
  total order typing < delete < refactor < paste: paste if one of them is a paste, else
  refactor if one of them is a refactor, else delete if one of them is a delete, else
  typing. That order is the order of the priorities the engine compares. Its counters
  are the sums of the inserted and of the removed characters over all of those edits.
\<close>

theorem pending_is_max_and_sums:
  assumes "map_of (pendingChanges st) f = None"
    and "rel = filter (\<lambda>ev. isTracked host (excludePatterns st) ev
                             \<and> uri_fsPath (document ev) = f) es"
    and "rel \<noteq> []"
    and "types = (\<lambda>ev. detect (pasteThreshold st) (contentChanges ev)) ` set rel"
  shows "\<exists>p. map_of (pendingChanges (fold (handleDocumentChange host) es st)) f = Some p
      \<and> changeType p = (if Paste \<in> types then Paste
                         else if Refactor \<in> types then Refactor
                         else if Delete \<in> types then Delete
                         else Typing)
      \<and> changeType p \<in> types
      \<and> CHANGE_TYPE_PRIORITY (changeType p) = Max (CHANGE_TYPE_PRIORITY ` types)
      \<and> charsAdded p = sum_list (map eventAdded rel)
      \<and> charsRemoved p = sum_list (map eventRemoved rel)
      \<and> CHANGE_TYPE_PRIORITY Typing < CHANGE_TYPE_PRIORITY Delete
      \<and> CHANGE_TYPE_PRIORITY Delete < CHANGE_TYPE_PRIORITY Refactor
      \<and> CHANGE_TYPE_PRIORITY Refactor < CHANGE_TYPE_PRIORITY Paste"
proof -
  from pending_entry_aggregate [OF assms(1,2,3)]
  obtain p where p: "map_of (pendingChanges (fold (handleDocumentChange host) es st)) f = Some p"
    "changeType p \<in> (\<lambda>ev. detect (pasteThreshold st) (contentChanges ev)) ` set rel"
    "CHANGE_TYPE_PRIORITY (changeType p)
       = Max ((\<lambda>ev. CHANGE_TYPE_PRIORITY (detect (pasteThreshold st) (contentChanges ev)))
               ` set rel)"
    "charsAdded p = sum_list (map eventAdded rel)"
    "charsRemoved p = sum_list (map eventRemoved rel)" by blast
  have img: "(\<lambda>ev. CHANGE_TYPE_PRIORITY (detect (pasteThreshold st) (contentChanges ev))) ` set rel
               = CHANGE_TYPE_PRIORITY ` types"
    unfolding assms(4) by (simp add: image_image)
  have fin: "finite types" unfolding assms(4) by simp
  have mem: "changeType p \<in> types" using p(2) assms(4) by simp
  have mx: "CHANGE_TYPE_PRIORITY (changeType p) = Max (CHANGE_TYPE_PRIORITY ` types)"
    using p(3) img by simp
  from greatest_priority_type [OF fin mem mx] p(1,4,5) mem mx
  show ?thesis by simp
qed

theorem pending_is_max_and_sums_witness:
  "map_of (pendingChanges
      (fold (handleDocumentChange example_host)
         [edit_a 0 ''x'' 0, edit_a 1 (replicate 60 (CHR ''y'')) 0, edit_a 61 ''z'' 2] engine0))
      ''/w/a.ts''
   = Some \<lparr>changeType = Paste, charsAdded = 62, charsRemoved = 2\<rparr>
   \<and> map_of (pendingChanges
      (fold (handleDocumentChange example_host) [edit_a 0 ''x'' 0, edit_a 0 [] 40] engine0))
      ''/w/a.ts''
   = Some \<lparr>changeType = Delete, charsAdded = 1, charsRemoved = 40\<rparr>
   \<and> map_of (pendingChanges
      (fold (handleDocumentChange example_host) [edit_a 0 [] 40, rename_a, edit_a 0 ''x'' 0]
         engine0))
      ''/w/a.ts''
   = Some \<lparr>changeType = Refactor, charsAdded = 3, charsRemoved = 42\<rparr>
   \<and> map_of (pendingChanges
      (fold (handleDocumentChange example_host)
         [rename_a, edit_a 1 (replicate 60 (CHR ''y'')) 0, rename_a] engine0))
      ''/w/a.ts''
   = Some \<lparr>changeType = Paste, charsAdded = 64, charsRemoved = 4\<rparr>"
  using pending_is_max_and_sums [of engine0 "''/w/a.ts''" _ example_host
          "[edit_a 0 ''x'' 0, edit_a 1 (replicate 60 (CHR ''y'')) 0, edit_a 61 ''z'' 2]",
          OF _ refl _ refl]
        pending_is_max_and_sums [of engine0 "''/w/a.ts''" _ example_host
          "[edit_a 0 ''x'' 0, edit_a 0 [] 40]", OF _ refl _ refl]
        pending_is_max_and_sums [of engine0 "''/w/a.ts''" _ example_host
          "[edit_a 0 [] 40, rename_a, edit_a 0 ''x'' 0]", OF _ refl _ refl]
        pending_is_max_and_sums [of engine0 "''/w/a.ts''" _ example_host
          "[rename_a, edit_a 1 (replicate 60 (CHR ''y'')) 0, rename_a]", OF _ refl _ refl]
  by (simp add: engine0_def example_host_def edit_a_def rename_a_def doc_a_def isTracked_def
        handleDocumentChange_def eventAdded_def eventRemoved_def Let_def
        DELETE_CHAR_THRESHOLD_def AList.update.simps)

section \<open>Properties of the replay recorder\<close>

lemma Position_eta [simp]: "\<lparr>line = line p, character = character p\<rparr> = p"
  by (cases p) simp

lemma tryCoalesce_single_insert:
  assumes "buffer \<noteq> []"
    and "changes (last buffer) = [lastChange]"
    and "changes newEvent = [newChange]"
    and "ev_filename newEvent = ev_filename (last buffer)"
    and "rc_rangeLength lastChange = 0" and "rc_rangeLength newChange = 0"
    and "line (rangeStart newChange) = line (rangeStart lastChange)"
    and "character (rangeStart newChange)
           = character (rangeStart lastChange) + int (length (rc_text lastChange))"
    and "length (rc_text newChange) = 1"
  shows "tryCoalesce buffer newEvent =
     (if ev_timestamp newEvent - ev_timestamp (last buffer) > 500 then (False, buffer)
      else (True, butlast buffer @
              [(last buffer)\<lparr>changes :=
                 [lastChange\<lparr>rc_text := rc_text lastChange @ rc_text newChange,
                             rangeEnd := rangeEnd newChange\<rparr>]\<rparr>]))"
  using assms by (simp add: tryCoalesce_def Let_def COALESCE_WINDOW_MS_def)

text \<open>
  Claim C8. Let the last buffered event be a single pure insert \<open>lastChange\<close>, and let
  the next recorded edit be for the same file, with a single range that removes
  nothing, lies on the same line, begins where the text of \<open>lastChange\<close> ends and
  inserts exactly one character. If it arrives at most 500 ms after the buffered event
  (100 ms, say), the buffer keeps its length: its last event now has the concatenated
  text and the end position of the new edit. If it arrives more than 500 ms later
  (600 ms, say), the edit is appended as an event of its own.
\<close>

theorem replay_coalesce_window:
  assumes "buffer \<noteq> []"
    and "changes (last buffer) = [lastChange]"
    and "rc_rangeLength lastChange = 0"
    and "contentChanges event = [c]"
    and "uri_scheme (document event) = ''file''"
    and "\<not> isExcluded host patterns (asRelativePath (document event))"
    and "asRelativePath (document event) = ev_filename (last buffer)"
    and "rangeLength c = 0"
    and "line (range_start c) = line (rangeStart lastChange)"
    and "character (range_start c)
           = character (rangeStart lastChange) + int (length (rc_text lastChange))"
    and "length (change_text c) = 1"
  shows "(now - ev_timestamp (last buffer) \<le> 500 \<longrightarrow>
            replay_handleDocumentChange host patterns now event buffer =
              butlast buffer @
              [(last buffer)\<lparr>changes :=
                 [lastChange\<lparr>rc_text := rc_text lastChange @ change_text c,
                             rangeEnd := range_end c\<rparr>]\<rparr>])
       \<and> (now - ev_timestamp (last buffer) > 500 \<longrightarrow>
            replay_handleDocumentChange host patterns now event buffer =
              buffer @
              [\<lparr>ev_timestamp = now, ev_filename = asRelativePath (document event),
                changes = [\<lparr>rangeStart = range_start c, rangeEnd = range_end c,
                            rc_text = change_text c, rc_rangeLength = 0\<rparr>]\<rparr>])"
proof -
  let ?new = "\<lparr>ev_timestamp = now, ev_filename = asRelativePath (document event),
                changes = [\<lparr>rangeStart = range_start c, rangeEnd = range_end c,
                            rc_text = change_text c, rc_rangeLength = 0\<rparr>]\<rparr>"
  have t: "tryCoalesce buffer ?new =
     (if ev_timestamp ?new - ev_timestamp (last buffer) > 500 then (False, buffer)
      else (True, butlast buffer @
              [(last buffer)\<lparr>changes :=
                 [lastChange\<lparr>rc_text := rc_text lastChange @ change_text c,
                             rangeEnd := range_end c\<rparr>]\<rparr>]))"
    using tryCoalesce_single_insert [OF assms(1) assms(2), of ?new
            "\<lparr>rangeStart = range_start c, rangeEnd = range_end c,
              rc_text = change_text c, rc_rangeLength = 0\<rparr>"] assms
    by simp
  have h: "replay_handleDocumentChange host patterns now event buffer =
     (case tryCoalesce buffer ?new of
        (True, buffer') \<Rightarrow> buffer' | (False, buffer') \<Rightarrow> buffer' @ [?new])"
    using assms(4,5,6,8) by (simp add: replay_handleDocumentChange_def Let_def)
  show ?thesis
    unfolding h t by simp
qed

theorem replay_coalesce_window_witness:
  "replay_handleDocumentChange example_host [] 1100 (edit_a 5 ''b'' 0)
     (replay_handleDocumentChange example_host [] 1000 (edit_a 4 ''a'' 0) [])
   = [\<lparr>ev_timestamp = 1000, ev_filename = ''a.ts'',
       changes = [\<lparr>rangeStart = \<lparr>line = 0, character = 4\<rparr>,
                   rangeEnd = \<lparr>line = 0, character = 5\<rparr>,
                   rc_text = ''ab'', rc_rangeLength = 0\<rparr>]\<rparr>]
  \<and> replay_handleDocumentChange example_host [] 1600 (edit_a 5 ''b'' 0)
     (replay_handleDocumentChange example_host [] 1000 (edit_a 4 ''a'' 0) [])
   = [\<lparr>ev_timestamp = 1000, ev_filename = ''a.ts'',
       changes = [\<lparr>rangeStart = \<lparr>line = 0, character = 4\<rparr>,
                   rangeEnd = \<lparr>line = 0, character = 4\<rparr>,
                   rc_text = ''a'', rc_rangeLength = 0\<rparr>]\<rparr>,
      \<lparr>ev_timestamp = 1600, ev_filename = ''a.ts'',
       changes = [\<lparr>rangeStart = \<lparr>line = 0, character = 5\<rparr>,
                   rangeEnd = \<lparr>line = 0, character = 5\<rparr>,
                   rc_text = ''b'', rc_rangeLength = 0\<rparr>]\<rparr>]"
proof -
  have b: "replay_handleDocumentChange example_host [] 1000 (edit_a 4 ''a'' 0) []
     = [\<lparr>ev_timestamp = 1000, ev_filename = ''a.ts'',
         changes = [\<lparr>rangeStart = \<lparr>line = 0, character = 4\<rparr>,
                     rangeEnd = \<lparr>line = 0, character = 4\<rparr>,
                     rc_text = ''a'', rc_rangeLength = 0\<rparr>]\<rparr>]"
    by (simp add: replay_handleDocumentChange_def edit_a_def doc_a_def tryCoalesce_def Let_def)
  show ?thesis
    unfolding b
    using replay_coalesce_window
            [of "[\<lparr>ev_timestamp = 1000, ev_filename = ''a.ts'',
                   changes = [\<lparr>rangeStart = \<lparr>line = 0, character = 4\<rparr>,
                               rangeEnd = \<lparr>line = 0, character = 4\<rparr>,
                               rc_text = ''a'', rc_rangeLength = 0\<rparr>]\<rparr>]"
                "\<lparr>rangeStart = \<lparr>line = 0, character = 4\<rparr>,
                  rangeEnd = \<lparr>line = 0, character = 4\<rparr>,
                  rc_text = ''a'', rc_rangeLength = 0\<rparr>"
                "edit_a 5 ''b'' 0" "hd (contentChanges (edit_a 5 ''b'' 0))"
                example_host "[]" 1100]
          replay_coalesce_window
            [of "[\<lparr>ev_timestamp = 1000, ev_filename = ''a.ts'',
                   changes = [\<lparr>rangeStart = \<lparr>line = 0, character = 4\<rparr>,
                               rangeEnd = \<lparr>line = 0, character = 4\<rparr>,
                               rc_text = ''a'', rc_rangeLength = 0\<rparr>]\<rparr>]"
                "\<lparr>rangeStart = \<lparr>line = 0, character = 4\<rparr>,
                  rangeEnd = \<lparr>line = 0, character = 4\<rparr>,
                  rc_text = ''a'', rc_rangeLength = 0\<rparr>"
                "edit_a 5 ''b'' 0" "hd (contentChanges (edit_a 5 ''b'' 0))"
                example_host "[]" 1600]
    by (simp add: edit_a_def doc_a_def)
qed

section \<open>Properties of the snapshot builder\<close>

lemmas example_defs = engine0_def example_host_def example_db_def edit_a_def doc_a_def
  toy_digest_def snap_a_def engine_noop_edit_def engine_readonly_def engine_paused_def
  rename_a_def

lemmas engine_defs = emitSnapshot_def processSnapshots_def stop_def pause_def resume_def
  handleDocumentChange_def countDiffLines_def startsWith_def saveSnapshot_def endSession_def
  Let_def DELETE_CHAR_THRESHOLD_def baselineOf_def

lemma emitSnapshot_same_content:
  assumes "find (\<lambda>doc. uri_fsPath doc = f) (textDocuments host) = Some doc"
    and "getText doc = baselineOf st f"
  shows "emitSnapshot host f pending st = Inr st"
  using assms by (simp add: emitSnapshot_def baselineOf_def)

lemma emitSnapshot_other_baseline:
  assumes "emitSnapshot host g pending st = Inr st'" and "g \<noteq> f"
  shows "baselineOf st' f = baselineOf st f"
  using assms
  by (auto simp: emitSnapshot_def baselineOf_def Let_def update_conv'
           split: option.splits if_splits sum.splits prod.splits)

lemma baselineOf_console_errors [simp]:
  "baselineOf (st\<lparr>console_errors := x\<rparr>) f = baselineOf st f"
  by (simp add: baselineOf_def)

lemma baselineOf_pendingChanges [simp]:
  "baselineOf (st\<lparr>pendingChanges := x\<rparr>) f = baselineOf st f"
  by (simp add: baselineOf_def)

text \<open>While the live content of \<open>f\<close> is its recorded content, the loop of a flush gives
  the same state with and without the entries of \<open>f\<close>, and leaves the baseline of \<open>f\<close>.\<close>

lemma processSnapshots_loop_skip:
  assumes "find (\<lambda>doc. uri_fsPath doc = f) (textDocuments host) = Some doc"
    and "getText doc = baselineOf st f"
  shows "processSnapshots_loop host (filter (\<lambda>entry. fst entry \<noteq> f) entries) st
           = processSnapshots_loop host entries st
         \<and> baselineOf (processSnapshots_loop host entries st) f = baselineOf st f"
  using assms(2)
proof (induction entries arbitrary: st)
  case Nil
  show ?case by simp
next
  case (Cons entry entries)
  obtain g p where e: "entry = (g, p)" by (cases entry)
  show ?case
  proof (cases "g = f")
    case True
    from Cons.IH [OF Cons.prems] emitSnapshot_same_content [OF assms(1) Cons.prems, of p]
      True e
    show ?thesis by simp
  next
    case False
    show ?thesis
    proof (cases "emitSnapshot host g p st")
      case (Inl err)
      with Cons.IH [of "st\<lparr>console_errors := console_errors st @ [err]\<rparr>"] Cons.prems False e
      show ?thesis by simp
    next
      case (Inr st')
      with emitSnapshot_other_baseline [OF Inr False] Cons.prems
      have "getText doc = baselineOf st' f" by simp
      with Cons.IH [of st'] Inr False e emitSnapshot_other_baseline [OF Inr False]
      show ?thesis by simp
    qed
  qed
qed

lemma emitSnapshot_pendingChanges:
  "emitSnapshot host g p (st\<lparr>pendingChanges := x\<rparr>)
     = (case emitSnapshot host g p st of
          Inl e \<Rightarrow> Inl e
        | Inr s \<Rightarrow> Inr (s\<lparr>pendingChanges := x\<rparr>))"
  by (simp add: emitSnapshot_def Let_def split: option.splits sum.splits prod.splits)

lemma processSnapshots_loop_pendingChanges:
  "processSnapshots_loop host entries (st\<lparr>pendingChanges := x\<rparr>)
     = (processSnapshots_loop host entries st)\<lparr>pendingChanges := x\<rparr>"
proof (induction entries arbitrary: st)
  case Nil
  show ?case by simp
next
  case (Cons entry entries)
  obtain g p where e: "entry = (g, p)" by (cases entry)
  show ?case
  proof (cases "emitSnapshot host g p st")
    case (Inl err)
    have sw: "st\<lparr>pendingChanges := x, console_errors := console_errors st @ [err]\<rparr>
          = st\<lparr>console_errors := console_errors st @ [err], pendingChanges := x\<rparr>"
      by simp
    have "processSnapshots_loop host (entry # entries) (st\<lparr>pendingChanges := x\<rparr>)
        = processSnapshots_loop host entries
            (st\<lparr>pendingChanges := x, console_errors := console_errors st @ [err]\<rparr>)"
      using e Inl by (simp add: emitSnapshot_pendingChanges)
    also have "\<dots> = (processSnapshots_loop host entries
            (st\<lparr>console_errors := console_errors st @ [err]\<rparr>))\<lparr>pendingChanges := x\<rparr>"
      unfolding sw by (rule Cons.IH)
    also have "\<dots> = (processSnapshots_loop host (entry # entries) st)\<lparr>pendingChanges := x\<rparr>"
      using e Inl by simp
    finally show ?thesis .
  next
    case (Inr st')
    with Cons.IH [of st'] e show ?thesis by (simp add: emitSnapshot_pendingChanges)
  qed
qed

text \<open>
  Claim C9. Let the document of file \<open>f\<close> be open with a text equal to the content last
  recorded for \<open>f\<close>. Then \<open>emitSnapshot\<close> for \<open>f\<close> returns the state it was given: nothing
  is fired or stored, and the chain cursor and the baselines are as before. A whole
  flush of an engine that is not paused gives the state that the flush without the
  pending entry of \<open>f\<close> gives, and leaves the recorded content of \<open>f\<close>; when \<open>f\<close> is the
  only pending file, the flush only clears the pending entries.
\<close>

theorem unchanged_content_emits_nothing:
  assumes "find (\<lambda>doc. uri_fsPath doc = f) (textDocuments host) = Some doc"
    and "getText doc = baselineOf st f"
  shows "emitSnapshot host f pending st = Inr st
       \<and> (\<not> isPaused st \<longrightarrow>
            processSnapshots host st =
              processSnapshots host
                (st\<lparr>pendingChanges :=
                      filter (\<lambda>entry. fst entry \<noteq> f) (pendingChanges st)\<rparr>))
       \<and> baselineOf (processSnapshots host st) f = baselineOf st f
       \<and> (\<not> isPaused st \<and> filter (\<lambda>entry. fst entry \<noteq> f) (pendingChanges st) = [] \<longrightarrow>
            processSnapshots host st = st\<lparr>pendingChanges := []\<rparr>)"
proof -
  let ?others = "filter (\<lambda>entry. fst entry \<noteq> f) (pendingChanges st)"
  have one: "emitSnapshot host f pending st = Inr st"
    using assms by (rule emitSnapshot_same_content)
  have l: "processSnapshots_loop host ?others st
             = processSnapshots_loop host (pendingChanges st) st"
    and b: "baselineOf (processSnapshots_loop host (pendingChanges st) st) f = baselineOf st f"
    using processSnapshots_loop_skip [OF assms] by blast+
  have two: "processSnapshots host st = processSnapshots host (st\<lparr>pendingChanges := ?others\<rparr>)"
    if np: "\<not> isPaused st"
  proof (cases "?others = []")
    case True
    with l np show ?thesis
      by (cases "pendingChanges st = []") (simp_all add: processSnapshots_def)
  next
    case False
    then have "pendingChanges st \<noteq> []" by auto
    with False l np show ?thesis
      by (simp add: processSnapshots_def processSnapshots_loop_pendingChanges)
  qed
  have three: "baselineOf (processSnapshots host st) f = baselineOf st f"
    using b by (simp add: processSnapshots_def)
  have four: "processSnapshots host st = st\<lparr>pendingChanges := []\<rparr>"
    if "\<not> isPaused st" and "?others = []"
    using two [OF that(1)] that by (simp add: processSnapshots_def)
  from one two three four show ?thesis by blast
qed

theorem unchanged_content_emits_nothing_witness:
  "map_of (pendingChanges engine_noop_edit) ''/w/a.ts''
     = Some \<lparr>changeType = Typing, charsAdded = 1, charsRemoved = 1\<rparr>
   \<and> fired engine_noop_edit = [snap_a]
   \<and> emitSnapshot example_host ''/w/a.ts''
        \<lparr>changeType = Typing, charsAdded = 1, charsRemoved = 1\<rparr> engine_noop_edit
      = Inr engine_noop_edit
   \<and> processSnapshots example_host engine_noop_edit
      = engine_noop_edit\<lparr>pendingChanges := []\<rparr>
   \<and> fired (processSnapshots example_host engine_noop_edit) = [snap_a]
   \<and> lastChainHash (processSnapshots example_host engine_noop_edit)
      = lastChainHash engine_noop_edit"
proof -
  have f: "find (\<lambda>doc. uri_fsPath doc = ''/w/a.ts'') (textDocuments example_host) = Some doc_a"
    by (simp add: example_defs)
  have g: "getText doc_a = baselineOf engine_noop_edit ''/w/a.ts''"
    by (simp add: example_defs engine_defs)
  have h: "\<not> isPaused engine_noop_edit
           \<and> filter (\<lambda>entry. fst entry \<noteq> ''/w/a.ts'') (pendingChanges engine_noop_edit) = []
           \<and> map_of (pendingChanges engine_noop_edit) ''/w/a.ts''
                = Some \<lparr>changeType = Typing, charsAdded = 1, charsRemoved = 1\<rparr>
           \<and> fired engine_noop_edit = [snap_a]"
    by (simp add: example_defs engine_defs)
  note t = unchanged_content_emits_nothing
             [OF f g, of "\<lparr>changeType = Typing, charsAdded = 1, charsRemoved = 1\<rparr>"]
  from t have a: "emitSnapshot example_host ''/w/a.ts''
        \<lparr>changeType = Typing, charsAdded = 1, charsRemoved = 1\<rparr> engine_noop_edit
      = Inr engine_noop_edit" by blast
  from t h have b: "processSnapshots example_host engine_noop_edit
      = engine_noop_edit\<lparr>pendingChanges := []\<rparr>" by blast
  show ?thesis
    unfolding b using a h by simp
qed

lemma emitSnapshot_save_failure_state:
  assumes "find (\<lambda>doc. uri_fsPath doc = f) (textDocuments host) = Some doc"
    and "getText doc \<noteq> baselineOf st f"
    and "createPatch host (asRelativePath doc) (baselineOf st f) (getText doc) = Inr d"
    and "storage st = Some db"
    and "snap = \<lparr>snapshot_id = randomUUID host (drawn st),
                  timestamp = toISOString_now host (drawn st),
                  filename = asRelativePath doc,
                  content_hash = sha256_hex host (getText doc),
                  diff = d,
                  lines_added = fst (countDiffLines d),
                  lines_removed = snd (countDiffLines d),
                  total_lines = lineCount doc,
                  change_type = changeType pending,
                  change_size = charsAdded pending + charsRemoved pending,
                  chain_hash =
                    sha256_hex host (lastChainHash st @ sha256_hex host (getText doc)
                                     @ toISOString_now host (drawn st)),
                  session_id = sessionId st\<rparr>"
    and "saveSnapshot db snap = Inl e"
  shows "emitSnapshot host f pending st =
           Inr (st\<lparr>lastChainHash := chain_hash snap,
                    fileContents := AList.update f (getText doc) (fileContents st),
                    snapshotCount := snapshotCount st + 1,
                    drawn := drawn st + 1,
                    console_errors := console_errors st @ [e],
                    fired := fired st @ [snap]\<rparr>)"
  using assms
  by (simp add: emitSnapshot_def baselineOf_def Let_def case_prod_beta)

text \<open>
  Claim C3, as the code has it. Let \<open>emitSnapshot\<close> build the snapshot \<open>snap\<close> for a file
  whose content changed, and let \<open>saveSnapshot\<close> throw \<open>e\<close> for it. The error does not
  leave \<open>emitSnapshot\<close>: the function catches it, writes it to the console and returns
  normally. The snapshot is still fired to the listeners, and the database is as it
  was, without the snapshot.
\<close>

theorem emitSnapshot_save_failure_logged:
  assumes "find (\<lambda>doc. uri_fsPath doc = f) (textDocuments host) = Some doc"
    and "getText doc \<noteq> baselineOf st f"
    and "createPatch host (asRelativePath doc) (baselineOf st f) (getText doc) = Inr d"
    and "storage st = Some db"
    and "snap = \<lparr>snapshot_id = randomUUID host (drawn st),
                  timestamp = toISOString_now host (drawn st),
                  filename = asRelativePath doc,
                  content_hash = sha256_hex host (getText doc),
                  diff = d,
                  lines_added = fst (countDiffLines d),
                  lines_removed = snd (countDiffLines d),
                  total_lines = lineCount doc,
                  change_type = changeType pending,
                  change_size = charsAdded pending + charsRemoved pending,
                  chain_hash =
                    sha256_hex host (lastChainHash st @ sha256_hex host (getText doc)
                                     @ toISOString_now host (drawn st)),
                  session_id = sessionId st\<rparr>"
    and "saveSnapshot db snap = Inl e"
  shows "\<exists>st'. emitSnapshot host f pending st = Inr st'
            \<and> console_errors st' = console_errors st @ [e]
            \<and> fired st' = fired st @ [snap]
            \<and> storage st' = Some db"
  using emitSnapshot_save_failure_state [OF assms] assms(4) by simp

theorem emitSnapshot_save_failure_logged_witness:
  "\<exists>st'. emitSnapshot example_host ''/w/a.ts''
            \<lparr>changeType = Typing, charsAdded = 5, charsRemoved = 0\<rparr> engine_readonly
          = Inr st'
        \<and> console_errors st' = [SqliteError ''SQLITE_IOERR'']
        \<and> fired st' = [snap_a]
        \<and> storage st' = Some (example_db\<lparr>db_writable := False\<rparr>)"
proof -
  have 1: "find (\<lambda>doc. uri_fsPath doc = ''/w/a.ts'') (textDocuments example_host)
             = Some doc_a"
    by (simp add: example_defs)
  have 2: "getText doc_a \<noteq> baselineOf engine_readonly ''/w/a.ts''"
    by (simp add: example_defs engine_defs)
  have 3: "createPatch example_host (asRelativePath doc_a)
             (baselineOf engine_readonly ''/w/a.ts'') (getText doc_a) = Inr ''+let x''"
    by (simp add: example_defs engine_defs)
  have 4: "storage engine_readonly = Some (example_db\<lparr>db_writable := False\<rparr>)"
    by (simp add: example_defs engine_defs)
  have 5: "snap_a = \<lparr>snapshot_id = randomUUID example_host (drawn engine_readonly),
                  timestamp = toISOString_now example_host (drawn engine_readonly),
                  filename = asRelativePath doc_a,
                  content_hash = sha256_hex example_host (getText doc_a),
                  diff = ''+let x'',
                  lines_added = fst (countDiffLines ''+let x''),
                  lines_removed = snd (countDiffLines ''+let x''),
                  total_lines = lineCount doc_a,
                  change_type = changeType \<lparr>changeType = Typing, charsAdded = 5, charsRemoved = 0\<rparr>,
                  change_size = charsAdded \<lparr>changeType = Typing, charsAdded = 5, charsRemoved = 0\<rparr>
                     + charsRemoved \<lparr>changeType = Typing, charsAdded = 5, charsRemoved = 0\<rparr>,
                  chain_hash =
                    sha256_hex example_host
                      (lastChainHash engine_readonly @ sha256_hex example_host (getText doc_a)
                       @ toISOString_now example_host (drawn engine_readonly)),
                  session_id = sessionId engine_readonly\<rparr>"
    by (simp add: example_defs engine_defs)
  have 6: "saveSnapshot (example_db\<lparr>db_writable := False\<rparr>) snap_a
             = Inl (SqliteError ''SQLITE_IOERR'')"
    by (simp add: example_defs engine_defs)
  from emitSnapshot_save_failure_logged [OF 1 2 3 4 5 6]
  show ?thesis by (simp add: example_defs engine_defs)
qed

text \<open>The claim as stated fails: on an engine whose database refuses the insert, the
  call returns a state and no error, and the flush that contains it goes on.\<close>

theorem save_failure_is_swallowed:
  "saveSnapshot (example_db\<lparr>db_writable := False\<rparr>) snap_a
     = Inl (SqliteError ''SQLITE_IOERR'')
   \<and> emitSnapshot example_host ''/w/a.ts''
        \<lparr>changeType = Typing, charsAdded = 5, charsRemoved = 0\<rparr> engine_readonly
      \<noteq> Inl (SqliteError ''SQLITE_IOERR'')
   \<and> console_errors (processSnapshots example_host engine_readonly)
      = [SqliteError ''SQLITE_IOERR'']
   \<and> fired (processSnapshots example_host engine_readonly) = [snap_a]
   \<and> lastChainHash (processSnapshots example_host engine_readonly) = ''##let xt''
   \<and> storage (processSnapshots example_host engine_readonly)
      = Some (example_db\<lparr>db_writable := False\<rparr>)"
  by (simp add: example_defs engine_defs)

text \<open>
  Claim C4 at a paused engine. The engine was paused and then received an edit, so the
  file has a pending entry and its live text differs from its baseline. \<open>stop\<close> fires
  no snapshot and clears the pending entries: \<open>processSnapshots\<close> returns at its
  \<open>isPaused\<close> guard. The same edit on an engine that is not paused gives one snapshot
  at \<open>stop\<close>.
\<close>

theorem stop_while_paused_discards_pending:
  "isRunning engine_paused \<and> isPaused engine_paused
   \<and> map_of (pendingChanges engine_paused) ''/w/a.ts''
       = Some \<lparr>changeType = Typing, charsAdded = 5, charsRemoved = 0\<rparr>
   \<and> fired (stop example_host engine_paused) = []
   \<and> snapshotCount (stop example_host engine_paused) = 0
   \<and> pendingChanges (stop example_host engine_paused) = []
   \<and> fired (stop example_host
               (handleDocumentChange example_host (edit_a 0 ''let x'' 0) engine0))
       = [snap_a]"
  by (simp add: example_defs engine_defs)

section \<open>Properties of the flag analyzer\<close>

lemmas analyzer_defs = analyze_def detectStyleInconsistency_def detectNoDebugging_def
                 detectUnusualSpeed_def detectRapidCompletion_def detectNamingConvention_def
                 addedLines_def startsWith_def Let_def
  LARGE_PASTE_THRESHOLD_def FULLY_FORMED_LINE_THRESHOLD_def LONG_GAP_MS_def POST_GAP_WINDOW_MS_def
  POST_GAP_LINE_THRESHOLD_def NO_DEBUGGING_LINE_THRESHOLD_def UNUSUAL_SPEED_CPM_def SPEED_WINDOW_MS_def
  RAPID_COMPLETION_LINE_THRESHOLD_def RAPID_COMPLETION_TIME_MS_def toy_getTime_def


lemma largePaste_flag:
  "flag \<in> set (detectLargePaste xs) \<Longrightarrow>
   \<exists>s \<in> set xs. lines_added s \<ge> 30 \<and> change_type s = Paste \<and>
     flag = \<lparr>flag_category = large_paste, flag_severity = Medium,
            flag_timestamp = timestamp s, flag_filename = filename s,
            snapshotIds = [snapshot_id s]\<rparr>"
  by (induction xs) (auto simp: LARGE_PASTE_THRESHOLD_def split: if_splits)

lemma largePaste_present:
  "s \<in> set xs \<Longrightarrow> lines_added s \<ge> 30 \<Longrightarrow> change_type s = Paste \<Longrightarrow>
     \<lparr>flag_category = large_paste, flag_severity = Medium,
            flag_timestamp = timestamp s, flag_filename = filename s,
            snapshotIds = [snapshot_id s]\<rparr> \<in> set (detectLargePaste xs)"
  by (induction xs) (auto simp: LARGE_PASTE_THRESHOLD_def split: if_splits)

lemma wasEditedAfter_iff: "wasEditedAfter name xs \<longleftrightarrow> (\<exists>t \<in> set xs. filename t = name)"
  by (induction xs) auto

lemma fullyFormed_flag:
  "flag \<in> set (detectFullyFormedCode xs) \<Longrightarrow>
   \<exists>s \<in> set xs. lines_added s \<ge> 50 \<and>
     flag = \<lparr>flag_category = fully_formed_code, flag_severity = High,
            flag_timestamp = timestamp s, flag_filename = filename s,
            snapshotIds = [snapshot_id s]\<rparr>"
  by (induction xs) (auto simp: FULLY_FORMED_LINE_THRESHOLD_def split: if_splits)

lemma fullyFormed_present:
  "lines_added s \<ge> 50 \<Longrightarrow> \<forall>t \<in> set post. filename t \<noteq> filename s \<Longrightarrow>
     \<lparr>flag_category = fully_formed_code, flag_severity = High,
            flag_timestamp = timestamp s, flag_filename = filename s,
            snapshotIds = [snapshot_id s]\<rparr> \<in> set (detectFullyFormedCode (pre @ s # post))"
  by (induction pre) (auto simp: FULLY_FORMED_LINE_THRESHOLD_def wasEditedAfter_iff split: if_splits)

lemma window_loop_ids:
  "set (snd (window_loop g field e xs)) \<subseteq> snapshot_id ` set xs"
  by (induction xs) (auto simp: Let_def split: prod.splits)

lemma window_loop_first:
  "\<not> js_gt (g (timestamp s)) e \<Longrightarrow> snd (window_loop g field e (s # xs)) \<noteq> []"
  by (auto simp: Let_def split: prod.splits)

lemma js_gt_add: "0 \<le> c \<Longrightarrow> \<not> js_gt t (js_add t (Some c))"
  by (cases t) auto

lemma longGap_aux:
  "flag \<in> set (detectLongGapThenCompletion g (p # xs)) \<Longrightarrow>
   flag_category flag = long_gap \<and> flag_severity flag = Medium \<and>
   snapshotIds flag \<noteq> [] \<and> set (snapshotIds flag) \<subseteq> snapshot_id ` set xs"
proof (induction xs arbitrary: p)
  case Nil
  then show ?case by simp
next
  case (Cons cur rest)
  let ?w = "window_loop g lines_added (js_add (g (timestamp cur)) (Some POST_GAP_WINDOW_MS)) (cur # rest)"
  have ne: "snd ?w \<noteq> []"
    by (rule window_loop_first) (simp add: js_gt_add POST_GAP_WINDOW_MS_def)
  have sub: "set (snd ?w) \<subseteq> snapshot_id ` set (cur # rest)"
    by (rule window_loop_ids)
  from Cons.prems have
    "flag \<in> set (detectLongGapThenCompletion g (cur # rest)) \<or>
     (flag = \<lparr>flag_category = long_gap, flag_severity = Medium,
                    flag_timestamp = timestamp cur, flag_filename = filename cur,
                    snapshotIds = snd ?w\<rparr>)"
    by (auto simp: Let_def split: if_splits prod.splits)
  then show ?case
  proof
    assume "flag \<in> set (detectLongGapThenCompletion g (cur # rest))"
    from Cons.IH [OF this] show ?thesis by auto
  next
    assume "flag = \<lparr>flag_category = long_gap, flag_severity = Medium,
                    flag_timestamp = timestamp cur, flag_filename = filename cur,
                    snapshotIds = snd ?w\<rparr>"
    with ne sub show ?thesis by auto
  qed
qed

lemma longGap_flag:
  "flag \<in> set (detectLongGapThenCompletion g xs) \<Longrightarrow>
   flag_category flag = long_gap \<and> flag_severity flag = Medium \<and>
   snapshotIds flag \<noteq> [] \<and> set (snapshotIds flag) \<subseteq> snapshot_id ` set xs"
  using longGap_aux [of flag g "hd xs" "tl xs"] by (cases xs) auto

lemma speed_aux:
  "flag \<in> set (unusualSpeed_loop g flagged xs) \<Longrightarrow>
   flag_category flag = unusual_typing_speed \<and> flag_severity flag = Low \<and>
   snapshotIds flag \<noteq> [] \<and> set (snapshotIds flag) \<subseteq> snapshot_id ` set xs"
proof (induction xs arbitrary: flagged)
  case Nil
  then show ?case by simp
next
  case (Cons s rest)
  let ?w = "window_loop g change_size (js_add (g (timestamp s)) (Some SPEED_WINDOW_MS)) (s # rest)"
  have sub: "set (snd ?w) \<subseteq> snapshot_id ` set (s # rest)"
    by (rule window_loop_ids)
  from Cons.prems have
    "(\<exists>fl. flag \<in> set (unusualSpeed_loop g fl rest)) \<or>
     (length (snd ?w) \<ge> 2 \<and> flag = \<lparr>flag_category = unusual_typing_speed, flag_severity = Low,
                    flag_timestamp = timestamp s, flag_filename = filename s,
                    snapshotIds = snd ?w\<rparr>)"
    by (auto simp: Let_def case_prod_beta simp del: window_loop.simps split: if_splits)
  then show ?case
  proof
    assume "\<exists>fl. flag \<in> set (unusualSpeed_loop g fl rest)"
    then obtain fl where "flag \<in> set (unusualSpeed_loop g fl rest)" by blast
    from Cons.IH [OF this] show ?thesis by auto
  next
    assume a: "length (snd ?w) \<ge> 2 \<and> flag = \<lparr>flag_category = unusual_typing_speed, flag_severity = Low,
                    flag_timestamp = timestamp s, flag_filename = filename s,
                    snapshotIds = snd ?w\<rparr>"
    then have "snd ?w \<noteq> []" by auto
    with a sub show ?thesis by auto
  qed
qed

lemma foldl_lines: "foldl (\<lambda>acc snap. acc + lines_added snap) a xs = a + sum_list (map lines_added xs)"
  by (induction xs arbitrary: a) simp_all

lemma rapid_flag:
  "flag \<in> set (detectRapidCompletion g xs) \<Longrightarrow>
   flag_category flag = rapid_completion \<and> flag_severity flag = Low \<and>
   snapshotIds flag \<noteq> [] \<and> set (snapshotIds flag) \<subseteq> snapshot_id ` set xs"
  by (cases xs) (auto simp: detectRapidCompletion_def Let_def split: if_splits)

lemma update_mem: "(k', v') \<in> set (AList.update k v al) \<Longrightarrow> (k', v') = (k, v) \<or> (k', v') \<in> set al"
  by (induction al) (auto split: if_splits)

lemma group_inv:
  "(k, v) \<in> set (groupByFile xs acc) \<Longrightarrow>
   set v \<subseteq> set xs \<union> (\<Union>(k', v') \<in> set acc. set v')"
proof (induction xs arbitrary: acc)
  case Nil
  then show ?case by auto
next
  case (Cons s rest)
  show ?case
  proof (cases "map_of acc (filename s)")
    case None
    with Cons.prems have "(k, v) \<in> set (groupByFile rest (AList.update (filename s) [s] acc))" by simp
    from Cons.IH [OF this] show ?thesis
      by (auto dest!: update_mem)
  next
    case (Some existing)
    then have ex: "(filename s, existing) \<in> set acc" by (rule map_of_SomeD)
    from Some Cons.prems have "(k, v) \<in> set (groupByFile rest (AList.update (filename s) (existing @ [s]) acc))" by simp
    from Cons.IH [OF this] ex show ?thesis
      by (fastforce dest!: update_mem)
  qed
qed

lemma style_aux:
  "flag \<in> set (styleFlags groups) \<Longrightarrow>
   flag_category flag = style_inconsistency \<and> flag_severity flag = Medium \<and>
   (\<exists>(k, v) \<in> set groups. length v \<ge> 2 \<and> snapshotIds flag = map snapshot_id v)"
  by (induction groups) (auto simp: Let_def split: if_splits)

lemma style_flag:
  assumes "flag \<in> set (detectStyleInconsistency xs)"
  shows "flag_category flag = style_inconsistency \<and> flag_severity flag = Medium \<and>
   snapshotIds flag \<noteq> [] \<and> set (snapshotIds flag) \<subseteq> snapshot_id ` set xs"
proof -
  from style_aux [OF assms [unfolded detectStyleInconsistency_def]]
  obtain k v where kv: "(k, v) \<in> set (groupByFile xs [])" "length v \<ge> 2"
      "snapshotIds flag = map snapshot_id v"
    and c: "flag_category flag = style_inconsistency" "flag_severity flag = Medium" by auto
  from group_inv [OF kv(1)] have "set v \<subseteq> set xs" by simp
  with kv(2,3) c show ?thesis by auto
qed


lemma update_all:
  "\<forall>(k', v') \<in> set al. P v' \<Longrightarrow> P v \<Longrightarrow> \<forall>(k', v') \<in> set (AList.update k v al). P v'"
  by (induction al) auto

lemma stats_inv:
  "(k, v) \<in> set (collectFileStats xs acc) \<Longrightarrow>
   \<forall>(k', v') \<in> set acc. stat_snapshotIds v' \<noteq> [] \<and> set (stat_snapshotIds v') \<subseteq> A \<Longrightarrow>
   snapshot_id ` set xs \<subseteq> A \<Longrightarrow>
   stat_snapshotIds v \<noteq> [] \<and> set (stat_snapshotIds v) \<subseteq> A"
proof (induction xs arbitrary: acc)
  case Nil
  then show ?case by auto
next
  case (Cons s rest)
  let ?P = "\<lambda>v'. stat_snapshotIds v' \<noteq> [] \<and> set (stat_snapshotIds v') \<subseteq> A"
  have sA: "snapshot_id s \<in> A" and rA: "snapshot_id ` set rest \<subseteq> A"
    using Cons.prems(3) by auto
  show ?case
  proof (cases "map_of acc (filename s)")
    case None
    let ?new = "\<lparr>totalAdded = lines_added s, totalRemoved = lines_removed s,
                stat_snapshotIds = [snapshot_id s], firstTimestamp = timestamp s\<rparr>"
    from None Cons.prems(1)
    have m: "(k, v) \<in> set (collectFileStats rest (AList.update (filename s) ?new acc))"
      by simp
    have "?P ?new" using sA by simp
    with Cons.prems(2)
    have i: "\<forall>(k', v') \<in> set (AList.update (filename s) ?new acc). ?P v'"
      by (rule update_all)
    from Cons.IH [OF m i rA] show ?thesis .
  next
    case (Some existing)
    then have ex: "(filename s, existing) \<in> set acc" by (rule map_of_SomeD)
    let ?new = "existing\<lparr>totalAdded := totalAdded existing + lines_added s,
                          totalRemoved := totalRemoved existing + lines_removed s,
                          stat_snapshotIds := stat_snapshotIds existing @ [snapshot_id s]\<rparr>"
    from Some Cons.prems(1)
    have m: "(k, v) \<in> set (collectFileStats rest (AList.update (filename s) ?new acc))"
      by simp
    from ex Cons.prems(2) have "?P existing" by blast
    then have "?P ?new" using sA by simp
    with Cons.prems(2)
    have i: "\<forall>(k', v') \<in> set (AList.update (filename s) ?new acc). ?P v'"
      by (rule update_all)
    from Cons.IH [OF m i rA] show ?thesis .
  qed
qed

lemma noDebugging_aux:
  "flag \<in> set (noDebuggingFlags entries) \<Longrightarrow>
   flag_category flag = no_debugging \<and> flag_severity flag = Low \<and>
   (\<exists>(k, v) \<in> set entries. snapshotIds flag = stat_snapshotIds v)"
  by (induction entries) (auto split: if_splits)

lemma noDebugging_flag:
  assumes "flag \<in> set (detectNoDebugging xs)"
  shows "flag_category flag = no_debugging \<and> flag_severity flag = Low \<and>
   snapshotIds flag \<noteq> [] \<and> set (snapshotIds flag) \<subseteq> snapshot_id ` set xs"
proof -
  from noDebugging_aux [OF assms [unfolded detectNoDebugging_def]]
  obtain k v where kv: "(k, v) \<in> set (collectFileStats xs [])"
      "snapshotIds flag = stat_snapshotIds v"
    and c: "flag_category flag = no_debugging" "flag_severity flag = Low" by auto
  from stats_inv [OF kv(1), of "snapshot_id ` set xs"] kv(2) c show ?thesis by simp
qed

lemma speed_flag:
  "flag \<in> set (detectUnusualSpeed g xs) \<Longrightarrow>
   flag_category flag = unusual_typing_speed \<and> flag_severity flag = Low \<and>
   snapshotIds flag \<noteq> [] \<and> set (snapshotIds flag) \<subseteq> snapshot_id ` set xs"
  unfolding detectUnusualSpeed_def by (rule speed_aux)

lemma largePaste_sound:
  "flag \<in> set (detectLargePaste xs) \<Longrightarrow>
   flag_category flag = large_paste \<and> flag_severity flag = Medium \<and>
   snapshotIds flag \<noteq> [] \<and> set (snapshotIds flag) \<subseteq> snapshot_id ` set xs"
  by (auto dest!: largePaste_flag)

lemma fullyFormed_sound:
  "flag \<in> set (detectFullyFormedCode xs) \<Longrightarrow>
   flag_category flag = fully_formed_code \<and> flag_severity flag = High \<and>
   snapshotIds flag \<noteq> [] \<and> set (snapshotIds flag) \<subseteq> snapshot_id ` set xs"
  by (auto dest!: fullyFormed_flag)


lemma analyze_mem:
  "flag \<in> set (analyze g xs) \<longleftrightarrow>
     flag \<in> set (detectLargePaste xs) \<or> flag \<in> set (detectFullyFormedCode xs)
     \<or> flag \<in> set (detectLongGapThenCompletion g xs) \<or> flag \<in> set (detectStyleInconsistency xs)
     \<or> flag \<in> set (detectNoDebugging xs) \<or> flag \<in> set (detectUnusualSpeed g xs)
     \<or> flag \<in> set (detectRapidCompletion g xs)"
  by (cases xs)
     (auto simp: analyze_def detectStyleInconsistency_def detectNoDebugging_def
                 detectUnusualSpeed_def detectRapidCompletion_def)

lemma filter_none: "\<forall>x \<in> set xs. \<not> P x \<Longrightarrow> filter P xs = []"
  by (induction xs) auto

lemma rapid_only:
  "filter (\<lambda>flag. flag_category flag = rapid_completion) (analyze g xs)
     = detectRapidCompletion g xs"
proof (cases xs)
  case Nil
  then show ?thesis by (simp add: analyze_def detectRapidCompletion_def)
next
  case (Cons a list)
  have 1: "filter (\<lambda>flag. flag_category flag = rapid_completion) (detectLargePaste xs) = []"
    by (rule filter_none) (auto dest!: largePaste_sound)
  have 2: "filter (\<lambda>flag. flag_category flag = rapid_completion) (detectFullyFormedCode xs) = []"
    by (rule filter_none) (auto dest!: fullyFormed_sound)
  have 3: "filter (\<lambda>flag. flag_category flag = rapid_completion) (detectLongGapThenCompletion g xs) = []"
    by (rule filter_none) (auto dest!: longGap_flag)
  have 4: "filter (\<lambda>flag. flag_category flag = rapid_completion) (detectStyleInconsistency xs) = []"
    by (rule filter_none) (auto dest!: style_flag)
  have 5: "filter (\<lambda>flag. flag_category flag = rapid_completion) (detectNoDebugging xs) = []"
    by (rule filter_none) (auto dest!: noDebugging_flag)
  have 6: "filter (\<lambda>flag. flag_category flag = rapid_completion) (detectUnusualSpeed g xs) = []"
    by (rule filter_none) (auto dest!: speed_flag)
  have 7: "filter (\<lambda>flag. flag_category flag = rapid_completion) (detectRapidCompletion g xs)
             = detectRapidCompletion g xs"
    by (rule filter_True) (auto dest!: rapid_flag)
  from Cons have "analyze g xs = detectLargePaste xs
           @ detectFullyFormedCode xs
           @ detectLongGapThenCompletion g xs
           @ detectStyleInconsistency xs
           @ detectNoDebugging xs
           @ detectUnusualSpeed g xs
           @ detectRapidCompletion g xs" by (simp add: analyze_def)
  then show ?thesis by (simp only: filter_append 1 2 3 4 5 6 7 append_Nil)
qed

text \<open>
  Claim C10. Every flag that \<open>analyze\<close> returns has a non-empty \<open>snapshotIds\<close> list, and
  every id in it is the id of a snapshot of the input sequence.
\<close>

theorem analyze_flags_reference_input:
  "\<forall>flag \<in> set (analyze g xs).
     snapshotIds flag \<noteq> [] \<and> set (snapshotIds flag) \<subseteq> snapshot_id ` set xs"
proof
  fix flag assume "flag \<in> set (analyze g xs)"
  then consider "flag \<in> set (detectLargePaste xs)" | "flag \<in> set (detectFullyFormedCode xs)"
     | "flag \<in> set (detectLongGapThenCompletion g xs)" | "flag \<in> set (detectStyleInconsistency xs)"
     | "flag \<in> set (detectNoDebugging xs)" | "flag \<in> set (detectUnusualSpeed g xs)"
     | "flag \<in> set (detectRapidCompletion g xs)"
    unfolding analyze_mem by blast
  then show "snapshotIds flag \<noteq> [] \<and> set (snapshotIds flag) \<subseteq> snapshot_id ` set xs"
  proof cases
    case 1 then show ?thesis using largePaste_sound by blast
  next
    case 2 then show ?thesis using fullyFormed_sound by blast
  next
    case 3 then show ?thesis using longGap_flag by blast
  next
    case 4 then show ?thesis using style_flag by blast
  next
    case 5 then show ?thesis using noDebugging_flag by blast
  next
    case 6 then show ?thesis using speed_flag by blast
  next
    case 7 then show ?thesis using rapid_flag by blast
  qed
qed

theorem analyze_flags_reference_input_witness:
  "list_all (\<lambda>flag. snapshotIds flag \<noteq> []
                     \<and> set (snapshotIds flag) \<subseteq> {''r1'', ''p1'', ''r2''})
            (analyze toy_getTime [burst1, paste42, burst2])
   \<and> length (analyze toy_getTime [burst1, paste42, burst2]) = 3"
  using analyze_flags_reference_input [of toy_getTime "[burst1, paste42, burst2]"]
  by (simp add: list_all_iff analyzer_defs burst1_def burst2_def paste42_def)

text \<open>
  Claim C7, as the code has it. The flags of category \<open>rapid_completion\<close> that \<open>analyze\<close>
  returns are exactly these: when the sequence has at least two snapshots, the time
  from its first to its last snapshot is at most one hour and the sum of \<open>lines_added\<close>
  is at least 200, one flag of low severity that carries the ids of all snapshots of
  the sequence, in order; otherwise none. A sequence of a single snapshot gets no such
  flag, however many lines it adds.
\<close>

theorem rapid_completion_exact:
  "filter (\<lambda>flag. flag_category flag = rapid_completion) (analyze getTime snaps) =
     (if 2 \<le> length snaps
         \<and> js_le (js_sub (getTime (timestamp (last snaps))) (getTime (timestamp (hd snaps))))
                  (Some (60 * 60 * 1000))
         \<and> 200 \<le> sum_list (map lines_added snaps)
      then [\<lparr>flag_category = rapid_completion, flag_severity = Low,
             flag_timestamp = timestamp (hd snaps), flag_filename = filename (hd snaps),
             snapshotIds = map snapshot_id snaps\<rparr>]
      else [])"
proof (cases "2 \<le> length snaps")
  case False
  then show ?thesis by (simp add: rapid_only detectRapidCompletion_def)
next
  case True
  then have ne: "snaps \<noteq> []" by auto
  have h: "snaps ! 0 = hd snaps" using ne by (simp add: hd_conv_nth)
  have l: "snaps ! (length snaps - Suc 0) = last snaps" using ne by (simp add: last_conv_nth)
  show ?thesis
    using True
    by (simp add: rapid_only detectRapidCompletion_def Let_def h l foldl_lines
          RAPID_COMPLETION_TIME_MS_def RAPID_COMPLETION_LINE_THRESHOLD_def)
qed

theorem rapid_completion_exact_witness:
  "filter (\<lambda>flag. flag_category flag = rapid_completion)
     (analyze toy_getTime [burst1, burst2])
   = [\<lparr>flag_category = rapid_completion, flag_severity = Low, flag_timestamp = ''t'',
       flag_filename = ''c.ts'', snapshotIds = [''r1'', ''r2'']\<rparr>]
   \<and> filter (\<lambda>flag. flag_category flag = rapid_completion)
       (analyze toy_getTime [single250]) = []"
  using rapid_completion_exact [of toy_getTime "[burst1, burst2]"]
        rapid_completion_exact [of toy_getTime "[single250]"]
  by (simp add: toy_getTime_def burst1_def burst2_def single250_def)

text \<open>The claim as stated fails for a sequence of one snapshot: it lies within the hour
  and adds 250 lines, and the only flag is the one for fully formed code.\<close>

theorem single_snapshot_no_rapid_completion:
  "js_le (js_sub (toy_getTime (timestamp single250)) (toy_getTime (timestamp single250)))
         (Some RAPID_COMPLETION_TIME_MS)
   \<and> RAPID_COMPLETION_LINE_THRESHOLD \<le> lines_added single250
   \<and> analyze toy_getTime [single250]
       = [\<lparr>flag_category = fully_formed_code, flag_severity = High, flag_timestamp = ''t'',
           flag_filename = ''d.ts'', snapshotIds = [''q1'']\<rparr>]"
  by (simp add: analyzer_defs single250_def)

text \<open>
  Claim C2, as the code has it. Let a file receive a single snapshot \<open>s\<close> in the
  sequence, a paste that adds at least 30 lines. \<open>analyze\<close> returns the \<open>large_paste\<close>
  flag of medium severity keyed to \<open>s\<close>. It returns the \<open>fully_formed_code\<close> flag of high
  severity keyed to \<open>s\<close> exactly when \<open>s\<close> adds at least 50 lines; below 50 lines (42,
  say) no \<open>fully_formed_code\<close> flag names the file.
\<close>

theorem single_paste_flags:
  assumes "snaps = pre @ s # post"
    and "\<forall>t \<in> set pre \<union> set post. filename t \<noteq> filename s"
    and "change_type s = Paste"
    and "30 \<le> lines_added s"
  shows "\<lparr>flag_category = large_paste, flag_severity = Medium,
          flag_timestamp = timestamp s, flag_filename = filename s,
          snapshotIds = [snapshot_id s]\<rparr> \<in> set (analyze getTime snaps)
       \<and> (\<lparr>flag_category = fully_formed_code, flag_severity = High,
            flag_timestamp = timestamp s, flag_filename = filename s,
            snapshotIds = [snapshot_id s]\<rparr> \<in> set (analyze getTime snaps)
            \<longleftrightarrow> 50 \<le> lines_added s)
       \<and> (lines_added s < 50 \<longrightarrow>
            (\<forall>flag \<in> set (analyze getTime snaps).
               flag_category flag = fully_formed_code \<longrightarrow> flag_filename flag \<noteq> filename s))"
proof -
  let ?FF = "\<lparr>flag_category = fully_formed_code, flag_severity = High,
            flag_timestamp = timestamp s, flag_filename = filename s,
            snapshotIds = [snapshot_id s]\<rparr>"
  have mem: "s \<in> set snaps" using assms(1) by simp
  have only: "t = s" if "t \<in> set snaps" "filename t = filename s" for t
    using that assms(1,2) by auto
  have ff_src: "flag \<in> set (detectFullyFormedCode snaps)"
    if "flag \<in> set (analyze getTime snaps)" "flag_category flag = fully_formed_code" for flag
    using that unfolding analyze_mem
    by (auto dest!: largePaste_sound longGap_flag style_flag noDebugging_flag speed_flag rapid_flag)
  have a: "\<lparr>flag_category = large_paste, flag_severity = Medium,
          flag_timestamp = timestamp s, flag_filename = filename s,
          snapshotIds = [snapshot_id s]\<rparr> \<in> set (analyze getTime snaps)"
    unfolding analyze_mem using largePaste_present [OF mem assms(4) assms(3)] by blast
  have b1: "50 \<le> lines_added s" if "?FF \<in> set (analyze getTime snaps)"
  proof -
    from ff_src [OF that] have "?FF \<in> set (detectFullyFormedCode snaps)" by simp
    from fullyFormed_flag [OF this] obtain t where t: "t \<in> set snaps" "50 \<le> lines_added t"
      "filename t = filename s" by auto
    with only show ?thesis by blast
  qed
  have b2: "?FF \<in> set (analyze getTime snaps)" if "50 \<le> lines_added s"
    unfolding analyze_mem assms(1)
    using fullyFormed_present [OF that, of post pre] assms(2) by blast
  have c: "flag_filename flag \<noteq> filename s"
    if "lines_added s < 50" "flag \<in> set (analyze getTime snaps)"
       "flag_category flag = fully_formed_code" for flag
  proof
    assume e: "flag_filename flag = filename s"
    from fullyFormed_flag [OF ff_src [OF that(2,3)]] obtain t where t: "t \<in> set snaps"
      "50 \<le> lines_added t" "flag_filename flag = filename t" by auto
    with only e have "t = s" by simp
    with t(2) that(1) show False by simp
  qed
  from a b1 b2 c show ?thesis by blast
qed

theorem single_paste_flags_witness:
  "\<lparr>flag_category = large_paste, flag_severity = Medium, flag_timestamp = ''t'',
     flag_filename = ''b.ts'', snapshotIds = [''p1'']\<rparr>
     \<in> set (analyze toy_getTime [burst1, paste42, burst2])
   \<and> \<lparr>flag_category = fully_formed_code, flag_severity = High, flag_timestamp = ''t'',
       flag_filename = ''b.ts'', snapshotIds = [''p1'']\<rparr>
     \<notin> set (analyze toy_getTime [burst1, paste42, burst2])"
  using single_paste_flags [of "[burst1, paste42, burst2]" "[burst1]" paste42 "[burst2]"
          toy_getTime]
  by (simp add: burst1_def burst2_def paste42_def)

text \<open>The claim as stated fails: for a file whose only snapshot is a paste of 42 lines
  the analyzer returns the \<open>large_paste\<close> flag and nothing else.\<close>

theorem paste42_only_large_paste:
  "change_type paste42 = Paste \<and> lines_added paste42 = 42
   \<and> analyze toy_getTime [paste42]
       = [\<lparr>flag_category = large_paste, flag_severity = Medium, flag_timestamp = ''t'',
           flag_filename = ''b.ts'', snapshotIds = [''p1'']\<rparr>]"
  by (simp add: analyzer_defs paste42_def)

end
